theory Spec2Isabelle
  imports Complex_Main "HOL-Library.Multiset"
begin


section \<open>Exceptions, paths and the file system\<close>

text \<open>
  Every exception that the modelled Python code can raise is a value of \<open>error\<close>;
  a function of the source that can raise returns \<open>error + 'a\<close> with \<open>Inl\<close> for
  the exception.
\<close>

datatype error =
    FileNotFoundError
  | IsADirectoryError
  | ParserError
  | UnidentifiedImageError
  | UnpicklingError
  | IndexError
  | KeyError
  | ValueError
  | OverflowError
  | ZeroDivisionError
  | AttributeError
  | RuntimeError
  | FileExistsError
  | NotADirectoryError

text \<open>
  \<open>os.path.join\<close> on POSIX, for two components: an absolute second component
  replaces the first, otherwise the components are joined by exactly one slash.
\<close>

definition path_join :: "string \<Rightarrow> string \<Rightarrow> string" where
  "path_join a b =
     (if b \<noteq> [] \<and> hd b = CHR ''/'' then b
      else if a = [] \<or> last a = CHR ''/'' then a @ b
      else a @ ''/'' @ b)"

text \<open>
  A numeric cell of the manifest as \<open>pandas\<close> holds it, an \<open>int64\<close> or a \<open>float64\<close>:
  \<open>Number m e\<close> is the finite value \<open>m * 2 ^ e\<close>, the other three are the infinities and
  not-a-number (which an empty cell parses to).
\<close>

datatype cell = Number int int | PlusInf | MinusInf | NotANumber

text \<open>
  A manifest row as \<open>pandas\<close> hands it to the dataset: the image identifier and the
  numeric cells by column name.
\<close>

record row =
  image_id :: string
  cells :: "string \<rightharpoonup> cell"

text \<open>
  The file system maps a path to what is stored there: a directory, a parseable
  manifest, a decodable image, a serialized parameter state, or bytes that none of the
  readers accepts.
\<close>

datatype ('img, 'w) node =
    Dir
  | Csv "row list"
  | Img 'img
  | Ckpt 'w
  | Garbage

type_synonym ('img, 'w) filesystem = "string \<rightharpoonup> ('img, 'w) node"

definition path_exists :: "('img, 'w) filesystem \<Rightarrow> string \<Rightarrow> bool" where
  "path_exists fs p = (fs p \<noteq> None)"

definition read_csv :: "('img, 'w) filesystem \<Rightarrow> string \<Rightarrow> error + row list" where
  "read_csv fs p =
     (case fs p of
        None \<Rightarrow> Inl FileNotFoundError
      | Some Dir \<Rightarrow> Inl IsADirectoryError
      | Some (Csv df) \<Rightarrow> Inr df
      | Some _ \<Rightarrow> Inl ParserError)"

text \<open>
  \<open>Image.open(p).convert("RGB")\<close>: an absent file and undecodable bytes both raise. The
  one class \<open>UnidentifiedImageError\<close> stands for every decoding failure that \<open>PIL\<close>
  reports, at \<open>open\<close> or while loading the pixels in \<open>convert\<close>.
\<close>

definition image_open :: "('img, 'w) filesystem \<Rightarrow> string \<Rightarrow> error + 'img" where
  "image_open fs p =
     (case fs p of
        None \<Rightarrow> Inl FileNotFoundError
      | Some Dir \<Rightarrow> Inl IsADirectoryError
      | Some (Img im) \<Rightarrow> Inr im
      | Some _ \<Rightarrow> Inl UnidentifiedImageError)"

section \<open>Python sequences\<close>

text \<open>
  Indexing with an integer: a negative index counts from the end, an index out of range
  raises \<open>IndexError\<close>. Both \<open>DataFrame.iloc\<close> and list indexing behave so.
\<close>

definition py_index :: "'a list \<Rightarrow> int \<Rightarrow> error + 'a" where
  "py_index xs i =
     (if 0 \<le> i \<and> i < int (length xs) then Inr (xs ! nat i)
      else if i < 0 \<and> - int (length xs) \<le> i then Inr (xs ! nat (int (length xs) + i))
      else Inl IndexError)"

text \<open>The slice \<open>xs[a:b]\<close>: negative bounds count from the end, all bounds are clamped.\<close>

definition slice_bound :: "nat \<Rightarrow> int \<Rightarrow> nat" where
  "slice_bound n a = (if a < 0 then nat (max (int n + a) 0) else min (nat a) n)"

definition py_slice :: "'a list \<Rightarrow> int \<Rightarrow> int \<Rightarrow> 'a list" where
  "py_slice xs a b =
     (let lo = slice_bound (length xs) a; hi = slice_bound (length xs) b
      in take (hi - lo) (drop lo xs))"

text \<open>\<open>itertools.accumulate\<close>: the running sums of a list.\<close>

fun accumulate_from :: "int \<Rightarrow> int list \<Rightarrow> int list" where
  "accumulate_from acc [] = []"
| "accumulate_from acc (x # xs) = (acc + x) # accumulate_from (acc + x) xs"

definition accumulate :: "int list \<Rightarrow> int list" where
  "accumulate xs = accumulate_from 0 xs"

text \<open>
  The index of the first maximal element, as \<open>numpy.argmax\<close> and \<open>torch.argmax\<close> return
  it; both raise on an empty sequence. The scan keeps the best value and its position
  and replaces them only on a strictly larger value.
\<close>

fun argmax_scan :: "'a::linorder list \<Rightarrow> nat \<Rightarrow> 'a \<Rightarrow> nat \<Rightarrow> nat" where
  "argmax_scan [] i best besti = besti"
| "argmax_scan (x # xs) i best besti =
     (if best < x then argmax_scan xs (Suc i) x i else argmax_scan xs (Suc i) best besti)"

definition argmax :: "'a::linorder list \<Rightarrow> error + nat" where
  "argmax xs = (case xs of [] \<Rightarrow> Inl ValueError | x # rest \<Rightarrow> Inr (argmax_scan rest 1 x 0))"

section \<open>Floating point: the product of a ratio and a length\<close>

text \<open>
  \<open>int(split_ratios[k] * len(full_dataset))\<close> converts the length to a binary64 float,
  multiplies two floats with rounding to nearest (ties to even) and truncates. A finite
  non-negative float is a pair \<open>(m, e)\<close> of value \<open>m * 2 ^ e\<close>; rounding keeps the 53
  leading bits of the exact result. Products here are zero or at least as large as the
  ratio, so gradual underflow does not occur; overflow gives infinity.
\<close>

fun bit_length :: "nat \<Rightarrow> nat" where
  "bit_length n = (if n = 0 then 0 else Suc (bit_length (n div 2)))"

declare bit_length.simps [simp del]

type_synonym finite_float = "nat \<times> int"

datatype pyfloat = Finite nat int | Infinity

definition round53 :: "nat \<Rightarrow> int \<Rightarrow> finite_float" where
  "round53 m e =
     (let b = bit_length m in
      if b \<le> 53 then (m, e)
      else
        let sh = b - 53;
            q = m div 2 ^ sh;
            r = m mod 2 ^ sh;
            half = 2 ^ (sh - 1);
            q' = (if half < r \<or> (r = half \<and> odd q) then q + 1 else q)
        in (q', e + int sh))"

text \<open>A rounded result of magnitude \<open>2 ^ 1024\<close> or more is beyond the largest float.\<close>

definition is_overflow :: "finite_float \<Rightarrow> bool" where
  "is_overflow d =
     (case d of (m, e) \<Rightarrow>
        if 0 \<le> e then 2 ^ 1024 \<le> m * 2 ^ nat e else 2 ^ (1024 + nat (- e)) \<le> m)"

text \<open>Converting a Python integer raises \<open>OverflowError\<close> when it is too large.\<close>

definition float_of_len :: "nat \<Rightarrow> error + finite_float" where
  "float_of_len n =
     (let d = round53 n 0 in if is_overflow d then Inl OverflowError else Inr d)"

definition float_mul :: "finite_float \<Rightarrow> finite_float \<Rightarrow> pyfloat" where
  "float_mul a b =
     (case a of (m1, e1) \<Rightarrow> case b of (m2, e2) \<Rightarrow>
        let d = round53 (m1 * m2) (e1 + e2)
        in if is_overflow d then Infinity else Finite (fst d) (snd d))"

text \<open>\<open>int(x)\<close> truncates a finite float and raises on infinity.\<close>

definition int_of_float :: "pyfloat \<Rightarrow> error + int" where
  "int_of_float x =
     (case x of
        Infinity \<Rightarrow> Inl OverflowError
      | Finite m e \<Rightarrow>
          if 0 \<le> e then Inr (int (m * 2 ^ nat e)) else Inr (int (m div 2 ^ nat (- e))))"

definition ratio_times_len :: "finite_float \<Rightarrow> nat \<Rightarrow> error + int" where
  "ratio_times_len r n =
     (case float_of_len n of
        Inl err \<Rightarrow> Inl err
      | Inr nf \<Rightarrow> int_of_float (float_mul r nf))"

text \<open>The literals \<open>0.8\<close> and \<open>0.1\<close> denote the nearest binary64 floats.\<close>

definition float_0_8 :: finite_float where
  "float_0_8 = (7205759403792794, - 53)"

definition float_0_1 :: finite_float where
  "float_0_1 = (7205759403792794, - 56)"

section \<open>Floating point: the cast of a cell to \<open>float32\<close>\<close>

text \<open>
  A \<open>float32\<close> value. The order is the one \<open>numpy.argmax\<close> follows: minus infinity,
  the finite values, plus infinity, and not-a-number above them all, so that the first
  maximal position of a vector is the position of its first not-a-number when it has one.
\<close>

datatype float32 = F32_NegInf | F32 real | F32_PosInf | F32_NaN

fun f32_rank :: "float32 \<Rightarrow> nat" where
  "f32_rank F32_NegInf = 0"
| "f32_rank (F32 x) = 1"
| "f32_rank F32_PosInf = 2"
| "f32_rank F32_NaN = 3"

fun f32_val :: "float32 \<Rightarrow> real" where
  "f32_val (F32 x) = x"
| "f32_val _ = 0"

instantiation float32 :: linorder
begin

definition less_eq_float32 :: "float32 \<Rightarrow> float32 \<Rightarrow> bool" where
  "less_eq_float32 a b =
     (f32_rank a < f32_rank b \<or> (f32_rank a = f32_rank b \<and> f32_val a \<le> f32_val b))"

definition less_float32 :: "float32 \<Rightarrow> float32 \<Rightarrow> bool" where
  "less_float32 a b =
     (f32_rank a < f32_rank b \<or> (f32_rank a = f32_rank b \<and> f32_val a < f32_val b))"

instance
proof
  fix x y z :: float32
  show "(x < y) = (x \<le> y \<and> \<not> y \<le> x)"
    by (auto simp: less_eq_float32_def less_float32_def)
  show "x \<le> x" by (simp add: less_eq_float32_def)
  show "x \<le> y \<Longrightarrow> y \<le> z \<Longrightarrow> x \<le> z"
    by (auto simp: less_eq_float32_def)
  show "x \<le> y \<Longrightarrow> y \<le> x \<Longrightarrow> x = y"
    by (cases x; cases y) (auto simp: less_eq_float32_def)
  show "x \<le> y \<or> y \<le> x"
    by (auto simp: less_eq_float32_def)
qed

end

text \<open>
  Rounding \<open>m * 2 ^ e\<close> to nearest, ties to even, on the grid of a binary format with
  \<open>p\<close> bits of precision and least exponent \<open>emin\<close> (the grid of the subnormal numbers).
\<close>

definition round_nearest_even :: "nat \<Rightarrow> int \<Rightarrow> nat \<Rightarrow> int \<Rightarrow> nat \<times> int" where
  "round_nearest_even p emin m e =
     (let sh = max (int (bit_length m) - int p) (emin - e) in
      if sh \<le> 0 then (m, e)
      else
        let k = nat sh;
            q = m div 2 ^ k;
            r = m mod 2 ^ k;
            half = 2 ^ (k - 1);
            q' = (if half < r \<or> (r = half \<and> odd q) then q + 1 else q)
        in (q', e + sh))"

definition dyadic :: "nat \<Rightarrow> int \<Rightarrow> real" where
  "dyadic m e = (if 0 \<le> e then real m * 2 ^ nat e else real m / 2 ^ nat (- e))"

text \<open>
  \<open>astype('float32')\<close> on the cells of a row. The row is an object array (the manifest
  has a string column), so each cell goes through a Python float, a \<open>float64\<close>, before
  it is narrowed to \<open>float32\<close>; a magnitude of \<open>2 ^ 128\<close> or more after rounding is
  beyond the largest \<open>float32\<close> and becomes an infinity.
\<close>

definition astype_float32 :: "cell \<Rightarrow> float32" where
  "astype_float32 c =
     (case c of
        PlusInf \<Rightarrow> F32_PosInf
      | MinusInf \<Rightarrow> F32_NegInf
      | NotANumber \<Rightarrow> F32_NaN
      | Number m e \<Rightarrow>
          let d = round_nearest_even 53 (- 1074) (nat \<bar>m\<bar>) e;
              f = round_nearest_even 24 (- 149) (fst d) (snd d);
              v = dyadic (fst f) (snd f)
          in if 2 ^ 128 \<le> v then (if m < 0 then F32_NegInf else F32_PosInf)
             else F32 (if m < 0 then - v else v))"

text \<open>The number a finite cell holds.\<close>

definition cell_value :: "int \<Rightarrow> int \<Rightarrow> real" where
  "cell_value m e = (if m < 0 then - dyadic (nat \<bar>m\<bar>) e else dyadic (nat \<bar>m\<bar>) e)"

section \<open>The dataset adapter (\<open>data/dataset.py\<close>)\<close>

text \<open>
  \<open>PlantDataset\<close>: the manifest, the image directory, an optional transform, and the
  class columns that \<open>__init__\<close> hardcodes. Images and tensors share the type \<open>'img\<close>.
\<close>

record 'img plant_dataset =
  pd_dataframe :: "row list"
  pd_root_dir :: string
  pd_transform :: "('img \<Rightarrow> 'img) option"
  pd_classes :: "string list"

definition PlantDataset :: "row list \<Rightarrow> string \<Rightarrow> ('img \<Rightarrow> 'img) option \<Rightarrow> 'img plant_dataset" where
  "PlantDataset dataframe root_dir transform =
     \<lparr>pd_dataframe = dataframe, pd_root_dir = root_dir, pd_transform = transform,
      pd_classes = [''healthy'', ''multiple_diseases'', ''rust'', ''scab'']\<rparr>"

definition PlantDataset_len :: "'img plant_dataset \<Rightarrow> nat" where
  "PlantDataset_len ds = length (pd_dataframe ds)"

text \<open>\<open>row[self.classes]\<close>: the cells of the listed columns, \<open>KeyError\<close> if one is missing.\<close>

fun select_cells :: "row \<Rightarrow> string list \<Rightarrow> error + cell list" where
  "select_cells r [] = Inr []"
| "select_cells r (c # cs) =
     (case cells r c of
        None \<Rightarrow> Inl KeyError
      | Some v \<Rightarrow> (case select_cells r cs of Inl err \<Rightarrow> Inl err | Inr vs \<Rightarrow> Inr (v # vs)))"

definition apply_transform :: "('img \<Rightarrow> 'img) option \<Rightarrow> 'img \<Rightarrow> 'img" where
  "apply_transform tf x = (case tf of None \<Rightarrow> x | Some f \<Rightarrow> f x)"

text \<open>
  \<open>PlantDataset.__getitem__\<close>. The parameter \<open>f32\<close> is the cast \<open>astype('float32')\<close>
  of one cell, in the code \<open>astype_float32\<close>; the image is opened before the label is
  computed.
\<close>

definition PlantDataset_getitem ::
  "('img, 'w) filesystem \<Rightarrow> (cell \<Rightarrow> 'f::linorder) \<Rightarrow> 'img plant_dataset \<Rightarrow> int \<Rightarrow> error + ('img \<times> int)"
where
  "PlantDataset_getitem fs f32 ds idx =
     (case py_index (pd_dataframe ds) idx of
        Inl err \<Rightarrow> Inl err
      | Inr r \<Rightarrow>
          let img_name = image_id r @ ''.jpg'';
              img_path = path_join (pd_root_dir ds) img_name
          in (case image_open fs img_path of
                Inl err \<Rightarrow> Inl err
              | Inr img \<Rightarrow>
                  (case select_cells r (pd_classes ds) of
                     Inl err \<Rightarrow> Inl err
                   | Inr vals \<Rightarrow>
                       let label_vec = map f32 vals
                       in (case argmax label_vec of
                             Inl err \<Rightarrow> Inl err
                           | Inr label \<Rightarrow>
                               Inr (apply_transform (pd_transform ds) img, int label)))))"

text \<open>
  \<open>torch.utils.data.Subset\<close>: a dataset and a list of indices into it; item \<open>i\<close> is
  item \<open>indices[i]\<close> of the dataset.
\<close>

record 'img subset =
  ss_dataset :: "'img plant_dataset"
  ss_indices :: "nat list"

definition Subset_getitem ::
  "('img, 'w) filesystem \<Rightarrow> (cell \<Rightarrow> 'f::linorder) \<Rightarrow> 'img subset \<Rightarrow> int \<Rightarrow> error + ('img \<times> int)"
where
  "Subset_getitem fs f32 sub idx =
     (case py_index (ss_indices sub) idx of
        Inl err \<Rightarrow> Inl err
      | Inr i \<Rightarrow> PlantDataset_getitem fs f32 (ss_dataset sub) (int i))"

record 'img transform_subset =
  ts_subset :: "'img subset"
  ts_transform :: "('img \<Rightarrow> 'img) option"

definition TransformSubset_getitem ::
  "('img, 'w) filesystem \<Rightarrow> (cell \<Rightarrow> 'f::linorder) \<Rightarrow> 'img transform_subset \<Rightarrow> int \<Rightarrow> error + ('img \<times> int)"
where
  "TransformSubset_getitem fs f32 ts index =
     (case Subset_getitem fs f32 (ts_subset ts) index of
        Inl err \<Rightarrow> Inl err
      | Inr (x, y) \<Rightarrow> Inr (apply_transform (ts_transform ts) x, y))"

definition TransformSubset_len :: "'img transform_subset \<Rightarrow> nat" where
  "TransformSubset_len ts = length (ss_indices (ts_subset ts))"

section \<open>Splitting and loading\<close>

text \<open>
  \<open>torch.utils.data.random_split\<close> with integer lengths: the lengths must sum to the
  size of the dataset, a permutation of all indices is drawn (the parameter \<open>perm\<close>),
  and the subsets take consecutive slices of it.
\<close>

definition random_split ::
  "'img plant_dataset \<Rightarrow> int list \<Rightarrow> nat list \<Rightarrow> error + 'img subset list"
where
  "random_split ds lengths perm =
     (if sum_list lengths \<noteq> int (PlantDataset_len ds) then Inl ValueError
      else Inr (map (\<lambda>(offset, len). \<lparr>ss_dataset = ds, ss_indices = py_slice perm (offset - len) offset\<rparr>)
                  (zip (accumulate lengths) lengths)))"

text \<open>The unpacking \<open>a, b, c = xs\<close> raises unless \<open>xs\<close> has exactly three elements.\<close>

fun unpack3 :: "'a list \<Rightarrow> error + ('a \<times> 'a \<times> 'a)" where
  "unpack3 [a, b, c] = Inr (a, b, c)"
| "unpack3 _ = Inl ValueError"

text \<open>
  \<open>get_datasets\<close>. The transforms returned by \<open>get_train_transforms()\<close> and
  \<open>get_val_transforms()\<close> are the parameters \<open>train_tf\<close> and \<open>val_tf\<close>.
\<close>

definition get_datasets ::
  "('img, 'w) filesystem \<Rightarrow> ('img \<Rightarrow> 'img) option \<Rightarrow> ('img \<Rightarrow> 'img) option \<Rightarrow> nat list \<Rightarrow>
   string \<Rightarrow> finite_float \<times> finite_float \<times> finite_float \<Rightarrow>
   error + ('img transform_subset \<times> 'img transform_subset \<times> 'img transform_subset)"
where
  "get_datasets fs train_tf val_tf perm data_dir split_ratios =
     (let csv_path = path_join data_dir ''train.csv'';
          img_dir = path_join data_dir ''images''
      in if \<not> path_exists fs csv_path then Inl FileNotFoundError
         else if \<not> path_exists fs img_dir then Inl FileNotFoundError
         else
           (case read_csv fs csv_path of
              Inl err \<Rightarrow> Inl err
            | Inr df \<Rightarrow>
                let full_dataset = PlantDataset df img_dir None;
                    n = PlantDataset_len full_dataset
                in (case ratio_times_len (fst split_ratios) n of
                      Inl err \<Rightarrow> Inl err
                    | Inr train_size \<Rightarrow>
                        (case ratio_times_len (fst (snd split_ratios)) n of
                           Inl err \<Rightarrow> Inl err
                         | Inr val_size \<Rightarrow>
                             let test_size0 = int n - train_size - val_size;
                                 test_size =
                                   (if train_size + val_size + test_size0 \<noteq> int n
                                    then int n - train_size - val_size else test_size0)
                             in (case random_split full_dataset [train_size, val_size, test_size] perm of
                                   Inl err \<Rightarrow> Inl err
                                 | Inr subsets \<Rightarrow>
                                     (case unpack3 subsets of
                                        Inl err \<Rightarrow> Inl err
                                      | Inr (train_ds, val_ds, test_ds) \<Rightarrow>
                                          Inr (\<lparr>ts_subset = train_ds, ts_transform = train_tf\<rparr>,
                                               \<lparr>ts_subset = val_ds, ts_transform = val_tf\<rparr>,
                                               \<lparr>ts_subset = test_ds, ts_transform = val_tf\<rparr>)))))))"

definition default_split_ratios :: "finite_float \<times> finite_float \<times> finite_float" where
  "default_split_ratios = (float_0_8, float_0_1, float_0_1)"

text \<open>
  \<open>DataLoader\<close>: the dataset, the batch size and the shuffle flag. With \<open>shuffle=False\<close>
  the sampler yields \<open>0, 1, ..., len - 1\<close>; with \<open>shuffle=True\<close> it yields a permutation
  drawn afresh for every pass, here the parameter \<open>draw\<close> of that pass. The constructor
  rejects a batch size that is not positive, and with \<open>shuffle=True\<close> it rejects an
  empty dataset (the random sampler needs a positive number of samples); the train
  loader is built first.
\<close>

record 'img dataloader =
  dl_dataset :: "'img transform_subset"
  dl_batch_size :: nat
  dl_shuffle :: bool

definition get_dataloaders ::
  "('img, 'w) filesystem \<Rightarrow> ('img \<Rightarrow> 'img) option \<Rightarrow> ('img \<Rightarrow> 'img) option \<Rightarrow> nat list \<Rightarrow>
   string \<Rightarrow> nat \<Rightarrow> error + ('img dataloader \<times> 'img dataloader \<times> 'img dataloader)"
where
  "get_dataloaders fs train_tf val_tf perm data_dir batch_size =
     (case get_datasets fs train_tf val_tf perm data_dir default_split_ratios of
        Inl err \<Rightarrow> Inl err
      | Inr (train_ds, val_ds, test_ds) \<Rightarrow>
          if TransformSubset_len train_ds = 0 then Inl ValueError
          else if batch_size = 0 then Inl ValueError
          else
          Inr (\<lparr>dl_dataset = train_ds, dl_batch_size = batch_size, dl_shuffle = True\<rparr>,
               \<lparr>dl_dataset = val_ds, dl_batch_size = batch_size, dl_shuffle = False\<rparr>,
               \<lparr>dl_dataset = test_ds, dl_batch_size = batch_size, dl_shuffle = False\<rparr>))"

definition sampler_order :: "'img dataloader \<Rightarrow> nat list \<Rightarrow> nat list" where
  "sampler_order dl draw =
     (if dl_shuffle dl then draw else [0..<TransformSubset_len (dl_dataset dl)])"

text \<open>The manifest rows a pass visits, in order: position \<open>i\<close> of the subset is row \<open>indices[i]\<close>.\<close>

definition loader_row_order :: "'img dataloader \<Rightarrow> nat list \<Rightarrow> error + nat list" where
  "loader_row_order dl draw =
     (let idxs = ss_indices (ts_subset (dl_dataset dl))
      in if \<forall>i \<in> set (sampler_order dl draw). i < length idxs
         then Inr (map (\<lambda>i. idxs ! i) (sampler_order dl draw))
         else Inl IndexError)"

text \<open>Fetching the examples of a pass: the first item that raises aborts the pass.\<close>

fun fetch_all ::
  "('img, 'w) filesystem \<Rightarrow> (cell \<Rightarrow> 'f::linorder) \<Rightarrow> 'img transform_subset \<Rightarrow> nat list \<Rightarrow>
   error + ('img \<times> int) list"
where
  "fetch_all fs f32 ts [] = Inr []"
| "fetch_all fs f32 ts (i # rest) =
     (case TransformSubset_getitem fs f32 ts (int i) of
        Inl err \<Rightarrow> Inl err
      | Inr ex \<Rightarrow> (case fetch_all fs f32 ts rest of Inl err \<Rightarrow> Inl err | Inr exs \<Rightarrow> Inr (ex # exs)))"

definition loader_examples ::
  "('img, 'w) filesystem \<Rightarrow> (cell \<Rightarrow> 'f::linorder) \<Rightarrow> 'img dataloader \<Rightarrow> nat list \<Rightarrow>
   error + ('img \<times> int) list"
where
  "loader_examples fs f32 dl draw = fetch_all fs f32 (dl_dataset dl) (sampler_order dl draw)"


section \<open>The training loop (\<open>train.py\<close>)\<close>

text \<open>
  The parsed command line. \<open>argparse\<close> admits only \<open>vit\<close> and \<open>swin\<close> for \<open>--model\<close>.
\<close>

record train_args =
  ta_data_dir :: string
  ta_model :: string
  ta_epochs :: int
  ta_batch_size :: nat
  ta_num_classes :: int
  ta_checkpoint_dir :: string
  ta_dry_run :: bool

datatype score = Num real | NaN

text \<open>
  What one pass of the loop body observes before the checkpoint decision:
  \<open>train_epoch\<close>, \<open>validate\<close> and \<open>scheduler.step()\<close> either raise, or leave the
  validation accuracy of this epoch (a number or not-a-number) and the parameter state
  \<open>model.state_dict()\<close>.
\<close>

datatype 'w epoch_outcome = Validated score 'w | Raised error

text \<open>
  The state the loop threads: the file system, \<open>best_acc\<close>, and the completed calls of
  \<open>torch.save\<close> (path and saved state), each followed in the source by the message
  \<open>Saved best model to ...\<close>.
\<close>

record ('img, 'w) run_state =
  rs_fs :: "('img, 'w) filesystem"
  rs_best_acc :: real
  rs_saves :: "(string \<times> 'w) list"

text \<open>The comparison \<open>val_metrics['accuracy'] > best_acc\<close>; it is false for not-a-number.\<close>

definition score_gt :: "score \<Rightarrow> real \<Rightarrow> bool" where
  "score_gt s b = (case s of Num a \<Rightarrow> b < a | NaN \<Rightarrow> False)"

definition score_value :: "score \<Rightarrow> real" where
  "score_value s = (case s of Num a \<Rightarrow> a | NaN \<Rightarrow> 0)"

text \<open>
  \<open>os.path.dirname\<close> on POSIX: the part up to the last slash, without trailing slashes
  unless it consists of slashes only.
\<close>

definition is_slash :: "char \<Rightarrow> bool" where
  "is_slash c = (c = CHR ''/'')"

definition rstrip_slashes :: "string \<Rightarrow> string" where
  "rstrip_slashes p = rev (dropWhile is_slash (rev p))"

definition dirname :: "string \<Rightarrow> string" where
  "dirname p =
     (let head = rev (dropWhile (\<lambda>c. \<not> is_slash c) (rev p))
      in if head \<noteq> [] \<and> \<not> list_all is_slash head then rstrip_slashes head else head)"

text \<open>
  A directory is looked up under its path without trailing slashes; the empty path
  (the working directory) and the root are always there.
\<close>

definition is_dir :: "('img, 'w) filesystem \<Rightarrow> string \<Rightarrow> bool" where
  "is_dir fs d = (list_all is_slash d \<or> fs (rstrip_slashes d) = Some Dir)"

text \<open>\<open>os.makedirs(d, exist_ok=True)\<close> for a directory whose parent exists.\<close>

definition makedirs :: "('img, 'w) filesystem \<Rightarrow> string \<Rightarrow> error + ('img, 'w) filesystem" where
  "makedirs fs d =
     (if d = [] then Inl FileNotFoundError
      else if list_all is_slash d then Inr fs
      else
        (case fs (rstrip_slashes d) of
           None \<Rightarrow> Inr (fs(rstrip_slashes d \<mapsto> Dir))
         | Some Dir \<Rightarrow> Inr fs
         | Some _ \<Rightarrow> Inl FileExistsError))"

text \<open>
  \<open>torch.save(state_dict, p)\<close> opens \<open>p\<close> for writing: it raises when \<open>p\<close> is a
  directory and when the directory of \<open>p\<close> is missing or is a file; otherwise the file
  holds the saved state afterwards.
\<close>

definition torch_save ::
  "('img, 'w) filesystem \<Rightarrow> string \<Rightarrow> 'w \<Rightarrow> error + ('img, 'w) filesystem"
where
  "torch_save fs p state_dict =
     (if fs p = Some Dir then Inl IsADirectoryError
      else if is_dir fs (dirname p) then Inr (fs(p \<mapsto> Ckpt state_dict))
      else if fs (rstrip_slashes (dirname p)) = None then Inl FileNotFoundError
      else Inl NotADirectoryError)"

text \<open>
  The checkpoint decision at the end of an epoch: \<open>best_acc\<close> is updated before
  \<open>torch.save\<close> is called, and an exception of \<open>torch.save\<close> leaves the run.
\<close>

definition save_best_model ::
  "string \<Rightarrow> score \<Rightarrow> 'w \<Rightarrow> ('img, 'w) run_state \<Rightarrow> ('img, 'w) run_state \<times> error option"
where
  "save_best_model save_path val_acc state_dict s =
     (if score_gt val_acc (rs_best_acc s)
      then
        (let s1 = s\<lparr>rs_best_acc := score_value val_acc\<rparr>
         in case torch_save (rs_fs s1) save_path state_dict of
              Inl err \<Rightarrow> (s1, Some err)
            | Inr fs' \<Rightarrow>
                (s1\<lparr>rs_fs := fs', rs_saves := rs_saves s1 @ [(save_path, state_dict)]\<rparr>, None))
      else (s, None))"

text \<open>\<open>for epoch in range(epochs)\<close>: an exception ends the run with the files as they are.\<close>

fun train_loop ::
  "string \<Rightarrow> (nat \<Rightarrow> 'w epoch_outcome) \<Rightarrow> nat list \<Rightarrow> ('img, 'w) run_state \<Rightarrow>
   ('img, 'w) run_state \<times> error option"
where
  "train_loop save_path outcome [] s = (s, None)"
| "train_loop save_path outcome (epoch # rest) s =
     (case outcome epoch of
        Raised err \<Rightarrow> (s, Some err)
      | Validated val_acc state_dict \<Rightarrow>
          (case save_best_model save_path val_acc state_dict s of
             (s', Some err) \<Rightarrow> (s', Some err)
           | (s', None) \<Rightarrow> train_loop save_path outcome rest s'))"

text \<open>
  \<open>main\<close>. The constructors \<open>get_vit_model\<close> and \<open>get_swin_model\<close> are parameters
  (they return \<open>None\<close> on failure); \<open>prepare\<close> stands for \<open>model.to(device)\<close> and the
  construction of the loss, the optimizer and the scheduler, which can raise; \<open>run_epoch\<close>
  stands for the loop body up to \<open>scheduler.step()\<close> on the given loaders and model.
\<close>

definition main ::
  "('img, 'w) filesystem \<Rightarrow> ('img \<Rightarrow> 'img) option \<Rightarrow> ('img \<Rightarrow> 'img) option \<Rightarrow> nat list \<Rightarrow>
   (int \<Rightarrow> 'w option) \<Rightarrow> (int \<Rightarrow> 'w option) \<Rightarrow> (train_args \<Rightarrow> 'w \<Rightarrow> error + 'w) \<Rightarrow>
   ('img dataloader \<Rightarrow> 'img dataloader \<Rightarrow> 'w \<Rightarrow> nat \<Rightarrow> 'w epoch_outcome) \<Rightarrow>
   train_args \<Rightarrow> ('img, 'w) run_state \<times> error option"
where
  "main fs train_tf val_tf perm get_vit_model get_swin_model prepare run_epoch args =
     (case makedirs fs (ta_checkpoint_dir args) of
        Inl err \<Rightarrow> (\<lparr>rs_fs = fs, rs_best_acc = 0, rs_saves = []\<rparr>, Some err)
      | Inr fs1 \<Rightarrow>
          (case get_dataloaders fs1 train_tf val_tf perm (ta_data_dir args) (ta_batch_size args) of
             Inl err \<Rightarrow> (\<lparr>rs_fs = fs1, rs_best_acc = 0, rs_saves = []\<rparr>, Some err)
           | Inr (train_loader, val_loader, test_loader) \<Rightarrow>
               (case (if ta_model args = ''vit'' then get_vit_model (ta_num_classes args)
                      else get_swin_model (ta_num_classes args)) of
                  None \<Rightarrow> (\<lparr>rs_fs = fs1, rs_best_acc = 0, rs_saves = []\<rparr>, None)
                | Some model0 \<Rightarrow>
                    (case prepare args model0 of
                       Inl err \<Rightarrow> (\<lparr>rs_fs = fs1, rs_best_acc = 0, rs_saves = []\<rparr>, Some err)
                     | Inr model \<Rightarrow>
                         let best_acc = 0;
                             epochs = (if ta_dry_run args then 1 else ta_epochs args);
                             save_path = path_join (ta_checkpoint_dir args)
                                           (''best_model_'' @ ta_model args @ ''.pth'')
                         in train_loop save_path (run_epoch train_loader val_loader model)
                              [0..<nat epochs]
                              \<lparr>rs_fs = fs1, rs_best_acc = best_acc, rs_saves = []\<rparr>))))"

text \<open>
  Notions for stating what a run leaves behind. The completed epochs of a run are those
  before the first one that raises. The best accuracy seen after a list of epochs is the
  largest number among their accuracies and the initial value of the tracker. An epoch
  improves when its accuracy is a number strictly above the best seen before it.
\<close>

fun completed_epochs :: "(nat \<Rightarrow> 'w epoch_outcome) \<Rightarrow> nat list \<Rightarrow> (score \<times> 'w) list" where
  "completed_epochs outcome [] = []"
| "completed_epochs outcome (epoch # rest) =
     (case outcome epoch of
        Raised err \<Rightarrow> []
      | Validated val_acc state_dict \<Rightarrow> (val_acc, state_dict) # completed_epochs outcome rest)"

fun first_raised :: "(nat \<Rightarrow> 'w epoch_outcome) \<Rightarrow> nat list \<Rightarrow> error option" where
  "first_raised outcome [] = None"
| "first_raised outcome (epoch # rest) =
     (case outcome epoch of
        Raised err \<Rightarrow> Some err
      | Validated val_acc state_dict \<Rightarrow> first_raised outcome rest)"

definition numbers :: "score list \<Rightarrow> real list" where
  "numbers accs = concat (map (\<lambda>s. case s of Num a \<Rightarrow> [a] | NaN \<Rightarrow> []) accs)"

definition best_so_far :: "real \<Rightarrow> score list \<Rightarrow> real" where
  "best_so_far b accs = foldl max b (numbers accs)"

definition improving_epochs :: "real \<Rightarrow> score list \<Rightarrow> nat list" where
  "improving_epochs b accs =
     filter (\<lambda>i. score_gt (accs ! i) (best_so_far b (take i accs))) [0..<length accs]"

section \<open>The metric calculator (\<open>utils/metrics.py\<close>)\<close>

text \<open>
  A metric value is a \<open>score\<close>: a number, or not-a-number, which \<open>numpy\<close> returns for
  the mean of no values. Metric values are exact here; the library computes them in
  binary64.
\<close>

definition np_mean :: "real list \<Rightarrow> score" where
  "np_mean xs = (if xs = [] then NaN else Num (sum_list xs / real (length xs)))"

text \<open>
  \<open>torch.argmax(y_pred, dim=1)\<close>: the first maximal column of every row of logits,
  a not-a-number logit counting as maximal. A row without columns cannot be reduced.
\<close>

fun torch_argmax_dim1 :: "float32 list list \<Rightarrow> error + int list" where
  "torch_argmax_dim1 [] = Inr []"
| "torch_argmax_dim1 (r # rs) =
     (case argmax r of
        Inl err \<Rightarrow> Inl IndexError
      | Inr k \<Rightarrow> (case torch_argmax_dim1 rs of Inl err \<Rightarrow> Inl err | Inr ks \<Rightarrow> Inr (int k # ks)))"

text \<open>
  \<open>sklearn.metrics.accuracy_score\<close>: the fraction of positions where prediction and
  target agree.
\<close>

definition accuracy_score :: "int list \<Rightarrow> int list \<Rightarrow> score" where
  "accuracy_score targets preds =
     np_mean (map (\<lambda>(t, p). if t = p then 1 else 0) (zip targets preds))"

text \<open>
  \<open>precision_recall_fscore_support(targets, preds, average='macro', zero_division=0)\<close>.
  No \<open>labels\<close> argument is passed, so the label set is the sorted set of values that
  occur in the targets or in the predictions. Per label the counts of true positives,
  of predictions and of targets give precision and recall; a ratio with denominator
  zero is replaced by 0; the macro average is the unweighted mean over the label set.
\<close>

definition unique_labels :: "int list \<Rightarrow> int list \<Rightarrow> int list" where
  "unique_labels targets preds = sorted_list_of_set (set targets \<union> set preds)"

definition tp_sum :: "int list \<Rightarrow> int list \<Rightarrow> int \<Rightarrow> nat" where
  "tp_sum targets preds c = length (filter (\<lambda>(t, p). t = c \<and> p = c) (zip targets preds))"

definition pred_sum :: "int list \<Rightarrow> int \<Rightarrow> nat" where
  "pred_sum preds c = length (filter (\<lambda>p. p = c) preds)"

definition true_sum :: "int list \<Rightarrow> int \<Rightarrow> nat" where
  "true_sum targets c = length (filter (\<lambda>t. t = c) targets)"

definition prf_divide :: "real \<Rightarrow> real \<Rightarrow> real" where
  "prf_divide numerator denominator = (if denominator = 0 then 0 else numerator / denominator)"

definition class_precision :: "int list \<Rightarrow> int list \<Rightarrow> int \<Rightarrow> real" where
  "class_precision targets preds c = prf_divide (real (tp_sum targets preds c)) (real (pred_sum preds c))"

definition class_recall :: "int list \<Rightarrow> int list \<Rightarrow> int \<Rightarrow> real" where
  "class_recall targets preds c = prf_divide (real (tp_sum targets preds c)) (real (true_sum targets c))"

definition class_f1 :: "int list \<Rightarrow> int list \<Rightarrow> int \<Rightarrow> real" where
  "class_f1 targets preds c =
     prf_divide (2 * class_precision targets preds c * class_recall targets preds c)
                (class_precision targets preds c + class_recall targets preds c)"

record metrics =
  accuracy :: score
  precision :: score
  recall :: score
  f1 :: score

text \<open>
  \<open>calculate_metrics(y_true, y_pred)\<close>: \<open>y_pred\<close> holds one row of logits per example.
  Inputs of different lengths are rejected by \<open>sklearn\<close>.
\<close>

definition calculate_metrics :: "int list \<Rightarrow> float32 list list \<Rightarrow> error + metrics" where
  "calculate_metrics y_true y_pred =
     (case torch_argmax_dim1 y_pred of
        Inl err \<Rightarrow> Inl err
      | Inr preds \<Rightarrow>
          let targets = y_true in
          if length targets \<noteq> length preds then Inl ValueError
          else
            let acc = accuracy_score targets preds;
                labels = unique_labels targets preds
            in Inr \<lparr>accuracy = acc,
                    precision = np_mean (map (class_precision targets preds) labels),
                    recall = np_mean (map (class_recall targets preds) labels),
                    f1 = np_mean (map (class_f1 targets preds) labels)\<rparr>)"

text \<open>
  The reading of the specification in which the macro average runs over every class of
  the class list, the columns \<open>0, ..., C - 1\<close> of the logits, classes without instances
  contributing 0.
\<close>

definition macro_over_class_list :: "nat \<Rightarrow> (int \<Rightarrow> real) \<Rightarrow> real" where
  "macro_over_class_list C per_class = sum_list (map (\<lambda>c. per_class (int c)) [0..<C]) / real C"


section \<open>Properties of the float product\<close>

lemma bit_length_le: "n < 2 ^ k \<Longrightarrow> bit_length n \<le> k"
proof (induction k arbitrary: n)
  case 0
  then show ?case by (simp add: bit_length.simps)
next
  case (Suc k)
  show ?case
  proof (cases "n = 0")
    case True
    then show ?thesis by (simp add: bit_length.simps)
  next
    case False
    from Suc.prems have "n div 2 < 2 ^ k" by simp
    then have "bit_length (n div 2) \<le> k" by (rule Suc.IH)
    with False show ?thesis by (subst bit_length.simps) simp
  qed
qed

lemma round53_cases:
  "\<exists>q. round53 P e = (q, e + int (bit_length P - 53)) \<and>
       (bit_length P \<le> 53 \<longrightarrow> q = P) \<and>
       (53 < bit_length P \<longrightarrow>
          (q = P div 2 ^ (bit_length P - 53) \<or> q = P div 2 ^ (bit_length P - 53) + 1))"
  by (auto simp: round53_def Let_def)

lemma trunc_round:
  assumes lo: "k * 2 ^ s \<le> P"
    and hi0: "bit_length P \<le> 53 \<Longrightarrow> P < (k + 1) * 2 ^ s"
    and hi1: "53 < bit_length P \<Longrightarrow> P + 2 ^ (bit_length P - 53) < (k + 1) * 2 ^ s"
    and sh: "bit_length P - 53 \<le> s" and s: "0 < s"
  shows "int_of_float (Finite (fst (round53 P (- int s))) (snd (round53 P (- int s)))) = Inr (int k)"
proof (cases "bit_length P \<le> 53")
  case True
  then have r: "round53 P (- int s) = (P, - int s)" by (simp add: round53_def)
  have "P div 2 ^ s = k"
    using lo hi0[OF True] by (intro div_nat_eqI) (simp_all add: mult.commute)
  with r s show ?thesis by (simp add: int_of_float_def)
next
  case False
  define h where "h = bit_length P - 53"
  define q where "q = P div 2 ^ h"
  from False have b: "53 < bit_length P" by simp
  have hs: "h \<le> s" using sh h_def by simp
  define t where "t = s - h"
  have pw: "(2::nat) ^ s = 2 ^ t * 2 ^ h" using hs t_def by (simp flip: power_add)
  have qlo: "k * 2 ^ t \<le> q"
  proof -
    have "(k * 2 ^ t) * 2 ^ h \<le> P" using lo pw by (simp add: mult.assoc)
    then have "(k * 2 ^ t) * 2 ^ h div 2 ^ h \<le> P div 2 ^ h" by (rule div_le_mono)
    then show ?thesis by (simp add: q_def)
  qed
  have qhi: "q + 1 < (k + 1) * 2 ^ t"
  proof -
    have "q * 2 ^ h \<le> P" by (simp add: q_def)
    then have "(q + 1) * 2 ^ h \<le> P + 2 ^ h" by (simp add: algebra_simps)
    also have "\<dots> < (k + 1) * 2 ^ s" using hi1[OF b] h_def by simp
    also have "\<dots> = ((k + 1) * 2 ^ t) * 2 ^ h" by (simp only: pw mult.assoc)
    finally have "(q + 1) * 2 ^ h < ((k + 1) * 2 ^ t) * 2 ^ h" .
    then show ?thesis by (simp only: mult_less_cancel2)
  qed
  have tpos: "0 < t"
  proof (rule ccontr)
    assume "\<not> 0 < t"
    then have "t = 0" by simp
    with qlo qhi show False by simp
  qed
  obtain q' where r: "round53 P (- int s) = (q', - int s + int h)"
    and q': "q' = q \<or> q' = q + 1"
    using round53_cases[of P "- int s"] b by (auto simp: h_def q_def)
  have "q' div 2 ^ t = k"
    using q' qlo qhi by (intro div_nat_eqI) (auto simp: mult.commute)
  moreover have "- int s + int h < 0" using tpos t_def hs by simp
  moreover have "nat (int s - int h) = t" using t_def hs by simp
  ultimately show ?thesis using r by (simp add: int_of_float_def)
qed


lemma float_of_len_small:
  assumes "n < 2 ^ 50"
  shows "float_of_len n = Inr (n, 0)"
proof -
  have "bit_length n \<le> 50" using assms by (rule bit_length_le)
  then have r: "round53 n 0 = (n, 0)" by (simp add: round53_def)
  have "(2::nat) ^ 50 \<le> 2 ^ 1024" by (rule power_increasing) simp_all
  with assms have "n < 2 ^ 1024" by linarith
  then show ?thesis by (simp add: float_of_len_def r is_overflow_def)
qed

lemma float_mul_finite:
  assumes P: "m1 * m2 < 2 ^ 103"
  shows "float_mul (m1, - int s) (m2, 0) =
         Finite (fst (round53 (m1 * m2) (- int s))) (snd (round53 (m1 * m2) (- int s)))"
proof -
  define P where "P = m1 * m2"
  define h where "h = bit_length P - 53"
  obtain q where r: "round53 P (- int s) = (q, - int s + int h)"
    and q0: "bit_length P \<le> 53 \<longrightarrow> q = P"
    and q1: "53 < bit_length P \<longrightarrow> (q = P div 2 ^ h \<or> q = P div 2 ^ h + 1)"
    using round53_cases[of P "- int s"] unfolding h_def by blast
  have dl: "P div 2 ^ h \<le> P" by (rule div_le_dividend)
  have qP: "q \<le> P + 1"
  proof (cases "bit_length P \<le> 53")
    case True
    with q0 show ?thesis by simp
  next
    case False
    then have "q \<le> P div 2 ^ h + 1" using q1 by auto
    also have "\<dots> \<le> P + 1" using dl by simp
    finally show ?thesis .
  qed
  have q103: "q \<le> 2 ^ 103" using qP P unfolding P_def by linarith
  have "bit_length P \<le> 103" using P unfolding P_def by (rule bit_length_le)
  then have h50: "h \<le> 50" unfolding h_def by simp
  have no: "\<not> is_overflow (q, - int s + int h)"
  proof (cases "0 \<le> - int s + int h")
    case True
    have "nat (- int s + int h) \<le> 50" using h50 by simp
    then have "(2::nat) ^ nat (- int s + int h) \<le> 2 ^ 50" by (intro power_increasing) simp_all
    with q103 have "q * 2 ^ nat (- int s + int h) \<le> 2 ^ 103 * 2 ^ 50" by (rule mult_le_mono)
    also have "\<dots> < (2::nat) ^ 1024" by simp
    finally show ?thesis using True by (simp add: is_overflow_def)
  next
    case False
    have "(2::nat) ^ 1024 \<le> 2 ^ (1024 + nat (- (- int s + int h)))"
      by (rule power_increasing) simp_all
    moreover have "q < 2 ^ 1024" using q103 by simp
    ultimately show ?thesis using False by (simp add: is_overflow_def)
  qed
  show ?thesis using r no by (simp add: float_mul_def P_def Let_def)
qed

lemma ratio_0_8_exact:
  assumes n: "n < 2 ^ 50"
  shows "ratio_times_len float_0_8 n = Inr (int (4 * n div 5))"
proof -
  define M :: nat where "M = 7205759403792794"
  define P where "P = M * n"
  define k where "k = 4 * n div 5"
  have n': "n < 1125899906842624" using n by simp
  have k5: "5 * k \<le> 4 * n" "4 * n < 5 * k + 5" unfolding k_def by presburger+
  have Pb: "P < 2 ^ 103" unfolding P_def M_def using n' by simp
  then have bl: "bit_length P \<le> 103" by (rule bit_length_le)
  then have h50: "bit_length P - 53 \<le> 50" by simp
  then have p50: "(2::nat) ^ (bit_length P - 53) \<le> 2 ^ 50" by (intro power_increasing) simp_all
  have lo: "k * 2 ^ 53 \<le> P" unfolding P_def M_def using k5 by simp
  have hi: "P + 2 ^ 50 < (k + 1) * 2 ^ 53" unfolding P_def M_def using k5 n' by simp
  have hi0: "P < (k + 1) * 2 ^ 53" using hi by simp
  have hi1: "P + 2 ^ (bit_length P - 53) < (k + 1) * 2 ^ 53" using hi p50 by linarith
  have t: "int_of_float (Finite (fst (round53 P (- int 53))) (snd (round53 P (- int 53)))) = Inr (int k)"
    using lo hi0 hi1 h50 by (intro trunc_round) simp_all
  have m: "float_mul (M, - int 53) (n, 0) =
           Finite (fst (round53 P (- int 53))) (snd (round53 P (- int 53)))"
    unfolding P_def using Pb[unfolded P_def] by (rule float_mul_finite)
  show ?thesis
    using t m by (simp add: ratio_times_len_def float_of_len_small[OF n] float_0_8_def M_def k_def)
qed

lemma ratio_0_1_exact:
  assumes n: "n < 2 ^ 50"
  shows "ratio_times_len float_0_1 n = Inr (int (n div 10))"
proof -
  define M :: nat where "M = 7205759403792794"
  define P where "P = M * n"
  define k where "k = n div 10"
  have n': "n < 1125899906842624" using n by simp
  have k5: "10 * k \<le> n" "n < 10 * k + 10" unfolding k_def by presburger+
  have Pb: "P < 2 ^ 103" unfolding P_def M_def using n' by simp
  then have bl: "bit_length P \<le> 103" by (rule bit_length_le)
  then have h50: "bit_length P - 53 \<le> 50" by simp
  then have p50: "(2::nat) ^ (bit_length P - 53) \<le> 2 ^ 50" by (intro power_increasing) simp_all
  have lo: "k * 2 ^ 56 \<le> P" unfolding P_def M_def using k5 by simp
  have hi: "P + 2 ^ 50 < (k + 1) * 2 ^ 56" unfolding P_def M_def using k5 n' by simp
  have hi0: "P < (k + 1) * 2 ^ 56" using hi by simp
  have hi1: "P + 2 ^ (bit_length P - 53) < (k + 1) * 2 ^ 56" using hi p50 by linarith
  have t: "int_of_float (Finite (fst (round53 P (- int 56))) (snd (round53 P (- int 56)))) = Inr (int k)"
    using lo hi0 hi1 h50 by (intro trunc_round) simp_all
  have m: "float_mul (M, - int 56) (n, 0) =
           Finite (fst (round53 P (- int 56))) (snd (round53 P (- int 56)))"
    unfolding P_def using Pb[unfolded P_def] by (rule float_mul_finite)
  show ?thesis
    using t m by (simp add: ratio_times_len_def float_of_len_small[OF n] float_0_1_def M_def k_def)
qed

text \<open>The bit length of a numeral, computed digit by digit.\<close>

lemma bit_length_0: "bit_length 0 = 0"
  by (simp add: bit_length.simps)

lemma bit_length_1: "bit_length (Suc 0) = Suc 0"
  by (simp add: bit_length.simps)

lemma bit_length_Bit0: "bit_length (numeral (Num.Bit0 k)) = Suc (bit_length (numeral k))"
proof -
  have "numeral (Num.Bit0 k) div 2 = (numeral k :: nat)" by simp
  then show ?thesis by (subst bit_length.simps) simp
qed

lemma bit_length_Bit1: "bit_length (numeral (Num.Bit1 k)) = Suc (bit_length (numeral k))"
proof -
  have "numeral (Num.Bit1 k) div 2 = (numeral k :: nat)" by simp
  then show ?thesis by (subst bit_length.simps) simp
qed

lemma bit_length_One: "bit_length (numeral Num.One) = Suc 0"
  by (simp add: bit_length_1)

lemmas bit_length_numeral =
  bit_length_0 bit_length_1 bit_length_One bit_length_Bit0 bit_length_Bit1

section \<open>Split sizes\<close>

lemma py_slice_take_drop:
  assumes "a \<le> b" "b \<le> length xs"
  shows "py_slice xs (int a) (int b) = take (b - a) (drop a xs)"
  using assms by (simp add: py_slice_def slice_bound_def Let_def)

lemma random_split_three:
  assumes len: "length (pd_dataframe ds) = a + b + c" and p: "length perm = a + b + c"
  shows "random_split ds [int a, int b, int (a + b + c) - int a - int b] perm =
         Inr [\<lparr>ss_dataset = ds, ss_indices = take a perm\<rparr>,
              \<lparr>ss_dataset = ds, ss_indices = take b (drop a perm)\<rparr>,
              \<lparr>ss_dataset = ds, ss_indices = drop (a + b) perm\<rparr>]"
proof -
  have s1: "py_slice perm 0 (int a) = take a perm"
    using py_slice_take_drop[of 0 a perm] p by simp
  have s2: "py_slice perm (int a) (int a + int b) = take b (drop a perm)"
    using py_slice_take_drop[of a "a + b" perm] p by simp
  have s3: "py_slice perm (int a + int b) (int a + int b + int c) = drop (a + b) perm"
    using py_slice_take_drop[of "a + b" "a + b + c" perm] p by simp
  show ?thesis
    using len s1 s2 s3
    by (simp add: random_split_def PlantDataset_len_def accumulate_def)
qed

lemma get_datasets_default_result:
  assumes csv: "fs (path_join data_dir ''train.csv'') = Some (Csv df)"
    and img: "fs (path_join data_dir ''images'') \<noteq> None"
    and n: "length df < 2 ^ 50"
    and lp: "length perm = length df"
  shows "get_datasets fs train_tf val_tf perm data_dir default_split_ratios =
        Inr (\<lparr>ts_subset = \<lparr>ss_dataset = PlantDataset df (path_join data_dir ''images'') None,
                             ss_indices = take (4 * length df div 5) perm\<rparr>,
               ts_transform = train_tf\<rparr>,
             \<lparr>ts_subset = \<lparr>ss_dataset = PlantDataset df (path_join data_dir ''images'') None,
                             ss_indices = take (length df div 10) (drop (4 * length df div 5) perm)\<rparr>,
               ts_transform = val_tf\<rparr>,
             \<lparr>ts_subset = \<lparr>ss_dataset = PlantDataset df (path_join data_dir ''images'') None,
                             ss_indices = drop (4 * length df div 5 + length df div 10) perm\<rparr>,
               ts_transform = val_tf\<rparr>)"
proof -
  define N where "N = length df"
  define a where "a = 4 * N div 5"
  define b where "b = N div 10"
  define c where "c = N - a - b"
  have "5 * a \<le> 4 * N" "10 * b \<le> N" unfolding a_def b_def by simp_all
  then have ab: "a + b \<le> N" by linarith
  then have abc: "a + b + c = N" unfolding c_def by simp
  have lp': "length perm = a + b + c" using lp abc N_def by simp
  have ra: "ratio_times_len float_0_8 N = Inr (int a)"
    unfolding a_def using n[folded N_def] by (rule ratio_0_8_exact)
  have rb: "ratio_times_len float_0_1 N = Inr (int b)"
    unfolding b_def using n[folded N_def] by (rule ratio_0_1_exact)
  let ?ds = "PlantDataset df (path_join data_dir ''images'') None :: 'a plant_dataset"
  have ld: "length (pd_dataframe ?ds) = a + b + c" by (simp add: PlantDataset_def abc N_def)
  have rs: "random_split ?ds [int a, int b, int N - int a - int b] perm =
         Inr [\<lparr>ss_dataset = ?ds, ss_indices = take a perm\<rparr>,
              \<lparr>ss_dataset = ?ds, ss_indices = take b (drop a perm)\<rparr>,
              \<lparr>ss_dataset = ?ds, ss_indices = drop (a + b) perm\<rparr>]"
    using random_split_three[OF ld lp'] abc by simp
  have "get_datasets fs train_tf val_tf perm data_dir default_split_ratios =
        Inr (\<lparr>ts_subset = \<lparr>ss_dataset = ?ds, ss_indices = take a perm\<rparr>, ts_transform = train_tf\<rparr>,
             \<lparr>ts_subset = \<lparr>ss_dataset = ?ds, ss_indices = take b (drop a perm)\<rparr>, ts_transform = val_tf\<rparr>,
             \<lparr>ts_subset = \<lparr>ss_dataset = ?ds, ss_indices = drop (a + b) perm\<rparr>, ts_transform = val_tf\<rparr>)"
    using csv img ra rb rs
    by (simp add: get_datasets_def path_exists_def read_csv_def default_split_ratios_def
        Let_def PlantDataset_len_def PlantDataset_def N_def)
  then show ?thesis by (simp add: a_def b_def N_def)
qed

lemma floor_0_8: "\<lfloor>0.8 * real N\<rfloor> = int (4 * N div 5)"
proof -
  have "0.8 * real N = real (4 * N) / real 5" by simp
  then have "\<lfloor>0.8 * real N\<rfloor> = \<lfloor>real (4 * N) / real 5\<rfloor>" by simp
  also have "\<dots> = int (4 * N div 5)" by (rule floor_divide_of_nat_eq)
  finally show ?thesis .
qed

lemma floor_0_1: "\<lfloor>0.1 * real N\<rfloor> = int (N div 10)"
proof -
  have "0.1 * real N = real N / real 10" by simp
  then have "\<lfloor>0.1 * real N\<rfloor> = \<lfloor>real N / real 10\<rfloor>" by simp
  also have "\<dots> = int (N div 10)" by (rule floor_divide_of_nat_eq)
  finally show ?thesis .
qed

text \<open>
  Claim C1. For a manifest of \<open>n\<close> rows and the default ratios \<open>(0.8, 0.1, 0.1)\<close>,
  \<open>get_datasets\<close> returns three splits of sizes \<open>floor(0.8 * n)\<close>, \<open>floor(0.1 * n)\<close>
  and \<open>n - trainSize - valSize\<close>; the sizes sum to \<open>n\<close> and the three index lists
  together hold every row index exactly once. The float products are exact for every
  manifest of fewer than \<open>2 ^ 50\<close> rows.
\<close>

theorem get_datasets_split_sizes:
  assumes csv: "fs (path_join data_dir ''train.csv'') = Some (Csv df)"
    and img: "fs (path_join data_dir ''images'') \<noteq> None"
    and n: "length df < 2 ^ 50"
    and perm: "mset perm = mset [0..<length df]"
  shows "\<exists>train_ds val_ds test_ds.
           get_datasets fs train_tf val_tf perm data_dir default_split_ratios
             = Inr (train_ds, val_ds, test_ds)
         \<and> int (TransformSubset_len train_ds) = \<lfloor>0.8 * real (length df)\<rfloor>
         \<and> int (TransformSubset_len val_ds) = \<lfloor>0.1 * real (length df)\<rfloor>
         \<and> int (TransformSubset_len test_ds)
             = int (length df) - int (TransformSubset_len train_ds) - int (TransformSubset_len val_ds)
         \<and> TransformSubset_len train_ds + TransformSubset_len val_ds + TransformSubset_len test_ds
             = length df
         \<and> mset (ss_indices (ts_subset train_ds) @ ss_indices (ts_subset val_ds)
                   @ ss_indices (ts_subset test_ds)) = mset [0..<length df]"
proof -
  define N where "N = length df"
  define a where "a = 4 * N div 5"
  define b where "b = N div 10"
  have "5 * a \<le> 4 * N" "10 * b \<le> N" unfolding a_def b_def by simp_all
  then have ab: "a + b \<le> N" by linarith
  have lp: "length perm = length df"
    using perm by (metis size_mset length_upt diff_zero)
  have cat: "take a perm @ take b (drop a perm) @ drop (a + b) perm = perm"
    by (metis append_take_drop_id drop_drop add.commute)
  note g = get_datasets_default_result[of fs data_dir df perm train_tf val_tf, OF csv img n lp]
  show ?thesis
    apply (rule exI)+
    apply (rule conjI, rule g)
    using lp ab perm cat floor_0_8[of N] floor_0_1[of N]
    by (simp add: TransformSubset_len_def N_def a_def b_def)
qed

text \<open>The scenario of 100 rows: the split sizes are \<open>(80, 10, 10)\<close>.\<close>

theorem get_datasets_split_sizes_witness:
  "\<exists>train_ds val_ds test_ds.
     get_datasets
       ([''data/train.csv'' \<mapsto> Csv (replicate 100 \<lparr>image_id = ''Train_0'', cells = Map.empty\<rparr>),
         ''data/images'' \<mapsto> Dir] :: (unit, unit) filesystem)
       None None [0..<100] ''data'' default_split_ratios = Inr (train_ds, val_ds, test_ds)
     \<and> TransformSubset_len train_ds = 80
     \<and> TransformSubset_len val_ds = 10
     \<and> TransformSubset_len test_ds = 10"
proof -
  let ?df = "replicate 100 \<lparr>image_id = ''Train_0'', cells = Map.empty\<rparr>"
  let ?fs = "[''data/train.csv'' \<mapsto> Csv ?df, ''data/images'' \<mapsto> Dir] :: (unit, unit) filesystem"
  have csv: "?fs (path_join ''data'' ''train.csv'') = Some (Csv ?df)"
    by (simp add: path_join_def)
  have img: "?fs (path_join ''data'' ''images'') \<noteq> None"
    by (simp add: path_join_def)
  have n: "length ?df < 2 ^ 50" by simp
  have perm: "mset [0..<100] = mset [0..<length ?df]" by simp
  from get_datasets_split_sizes[of ?fs "''data''" ?df "[0..<100]" None None, OF csv img n perm]
  obtain tr va te where g: "get_datasets ?fs None None [0..<100] ''data'' default_split_ratios = Inr (tr, va, te)"
    and a: "int (TransformSubset_len tr) = \<lfloor>0.8 * real (length ?df)\<rfloor>"
    and b: "int (TransformSubset_len va) = \<lfloor>0.1 * real (length ?df)\<rfloor>"
    and c: "TransformSubset_len tr + TransformSubset_len va + TransformSubset_len te = length ?df"
    by blast
  have a': "TransformSubset_len tr = 80" using a by simp
  have b': "TransformSubset_len va = 10" using b by simp
  have c': "TransformSubset_len te = 10" using c a' b' by simp
  show ?thesis using g a' b' c' by blast
qed


section \<open>The label encoder\<close>

lemma argmax_scan_spec:
  assumes "i = length pre" "besti < i" "best = pre ! besti"
    and "\<forall>j < length pre. pre ! j \<le> best" and "\<forall>j < besti. pre ! j < best"
  shows "let k = argmax_scan xs i best besti; ys = pre @ xs in
           k < length ys \<and> (\<forall>j < length ys. ys ! j \<le> ys ! k) \<and> (\<forall>j < k. ys ! j < ys ! k)"
  using assms
proof (induction xs arbitrary: pre i best besti)
  case Nil
  then show ?case by (simp add: Let_def)
next
  case (Cons x xs)
  show ?case
  proof (cases "best < x")
    case True
    have "let k = argmax_scan xs (Suc i) x i; ys = (pre @ [x]) @ xs in
           k < length ys \<and> (\<forall>j < length ys. ys ! j \<le> ys ! k) \<and> (\<forall>j < k. ys ! j < ys ! k)"
    proof (rule Cons.IH)
      show "Suc i = length (pre @ [x])" using Cons.prems by simp
      show "i < Suc i" by simp
      show "x = (pre @ [x]) ! i" using Cons.prems by simp
      show "\<forall>j<length (pre @ [x]). (pre @ [x]) ! j \<le> x"
        using Cons.prems True by (auto simp: nth_append less_Suc_eq intro: order.trans less_imp_le)
      show "\<forall>j<i. (pre @ [x]) ! j < x"
        using Cons.prems True by (auto simp: nth_append intro: le_less_trans)
    qed
    with True show ?thesis by simp
  next
    case False
    have "let k = argmax_scan xs (Suc i) best besti; ys = (pre @ [x]) @ xs in
           k < length ys \<and> (\<forall>j < length ys. ys ! j \<le> ys ! k) \<and> (\<forall>j < k. ys ! j < ys ! k)"
    proof (rule Cons.IH)
      show "Suc i = length (pre @ [x])" using Cons.prems by simp
      show "besti < Suc i" using Cons.prems by simp
      show "best = (pre @ [x]) ! besti" using Cons.prems by (simp add: nth_append)
      show "\<forall>j<length (pre @ [x]). (pre @ [x]) ! j \<le> best"
        using Cons.prems False by (auto simp: nth_append less_Suc_eq)
      show "\<forall>j<besti. (pre @ [x]) ! j < best"
        using Cons.prems by (auto simp: nth_append)
    qed
    with False show ?thesis by simp
  qed
qed

lemma argmax_first_max:
  assumes "argmax xs = Inr k"
  shows "k < length xs \<and> (\<forall>j < length xs. xs ! j \<le> xs ! k) \<and> (\<forall>j < k. xs ! j < xs ! k)"
proof (cases xs)
  case Nil
  with assms show ?thesis by (simp add: argmax_def)
next
  case (Cons x rest)
  have "let k = argmax_scan rest 1 x 0; ys = [x] @ rest in
          k < length ys \<and> (\<forall>j < length ys. ys ! j \<le> ys ! k) \<and> (\<forall>j < k. ys ! j < ys ! k)"
    by (rule argmax_scan_spec) simp_all
  moreover have "k = argmax_scan rest 1 x 0" using assms Cons by (simp add: argmax_def)
  ultimately show ?thesis using Cons by (simp add: Let_def)
qed

lemma argmax_nonempty: "xs \<noteq> [] \<Longrightarrow> \<exists>k. argmax xs = Inr k"
  by (cases xs) (simp_all add: argmax_def)

lemma argmax_is_Max:
  assumes "argmax xs = Inr k"
  shows "xs ! k = Max (set xs)"
proof -
  from argmax_first_max[OF assms] have k: "k < length xs" and le: "\<forall>j < length xs. xs ! j \<le> xs ! k"
    by simp_all
  have "xs ! k \<in> set xs" using k by simp
  moreover have "\<forall>y \<in> set xs. y \<le> xs ! k" using le by (auto simp: in_set_conv_nth)
  ultimately show ?thesis by (intro Max_eqI[symmetric]) auto
qed

lemma select_cells_length: "select_cells r cs = Inr vs \<Longrightarrow> length vs = length cs"
  by (induction cs arbitrary: vs) (auto split: option.splits sum.splits)

lemma getitem_InrD:
  assumes "PlantDataset_getitem fs f32 ds idx = Inr (x, label)"
  shows "\<exists>r im vals k.
           py_index (pd_dataframe ds) idx = Inr r
         \<and> image_open fs (path_join (pd_root_dir ds) (image_id r @ ''.jpg'')) = Inr im
         \<and> select_cells r (pd_classes ds) = Inr vals
         \<and> argmax (map f32 vals) = Inr k
         \<and> x = apply_transform (pd_transform ds) im \<and> label = int k"
  using assms by (auto simp: PlantDataset_getitem_def Let_def split: sum.splits)

lemma py_index_row:
  assumes "j = (if idx < 0 then int (length xs) + idx else idx)" "0 \<le> j" "j < int (length xs)"
  shows "py_index xs idx = Inr (xs ! nat j)"
  using assms by (auto simp: py_index_def)

lemma select_cells_four:
  assumes "cells r c0 = Some v0" "cells r c1 = Some v1" "cells r c2 = Some v2" "cells r c3 = Some v3"
  shows "select_cells r [c0, c1, c2, c3] = Inr [v0, v1, v2, v3]"
  using assms by simp

lemma astype_float32_zero: "astype_float32 (Number 0 0) = F32 0"
  by (simp add: astype_float32_def round_nearest_even_def dyadic_def Let_def bit_length_numeral)

lemma astype_float32_one: "astype_float32 (Number 1 0) = F32 1"
  by (simp add: astype_float32_def round_nearest_even_def dyadic_def Let_def bit_length_numeral)

lemma getitem_result:
  assumes j: "j = (if idx < 0 then int (length df) + idx else idx)" "0 \<le> j" "j < int (length df)"
    and img: "fs (path_join root_dir (image_id (df ! nat j) @ ''.jpg'')) = Some (Img im)"
    and c0: "cells (df ! nat j) ''healthy'' = Some v0"
    and c1: "cells (df ! nat j) ''multiple_diseases'' = Some v1"
    and c2: "cells (df ! nat j) ''rust'' = Some v2"
    and c3: "cells (df ! nat j) ''scab'' = Some v3"
    and a: "argmax (map f32 [v0, v1, v2, v3]) = Inr label"
  shows "PlantDataset_getitem fs f32 (PlantDataset df root_dir tf) idx
           = Inr (apply_transform tf im, int label)"
proof -
  have r: "py_index df idx = Inr (df ! nat j)" using j by (rule py_index_row)
  have io: "image_open fs (path_join root_dir (image_id (df ! nat j) @ ''.jpg'')) = Inr im"
    using img by (simp add: image_open_def)
  have sc: "select_cells (df ! nat j) [''healthy'', ''multiple_diseases'', ''rust'', ''scab'']
              = Inr [v0, v1, v2, v3]"
    using c0 c1 c2 c3 by (rule select_cells_four)
  show ?thesis
    using r io sc a by (simp add: PlantDataset_getitem_def PlantDataset_def Let_def)
qed


text \<open>
  Claim C3, as amended. For a valid index whose image decodes and whose row has the four
  class columns, \<open>__getitem__\<close> returns the image and a label that is the smallest index
  attaining the maximum of the class columns \<open>[healthy, multiple_diseases, rust, scab]\<close>
  after their cast to \<open>float32\<close> (not-a-number counting as the largest value); for a
  one-hot row of zeros and a single one it is the index of the one.
\<close>

theorem getitem_label_first_argmax:
  assumes j: "j = (if idx < 0 then int (length df) + idx else idx)" "0 \<le> j" "j < int (length df)"
    and img: "fs (path_join root_dir (image_id (df ! nat j) @ ''.jpg'')) = Some (Img im)"
    and c0: "cells (df ! nat j) ''healthy'' = Some v0"
    and c1: "cells (df ! nat j) ''multiple_diseases'' = Some v1"
    and c2: "cells (df ! nat j) ''rust'' = Some v2"
    and c3: "cells (df ! nat j) ''scab'' = Some v3"
  shows "\<exists>label.
           PlantDataset_getitem fs astype_float32 (PlantDataset df root_dir tf) idx
             = Inr (apply_transform tf im, int label)
         \<and> label < 4
         \<and> (\<forall>k < 4. map astype_float32 [v0, v1, v2, v3] ! k
                       \<le> map astype_float32 [v0, v1, v2, v3] ! label)
         \<and> (\<forall>k < label. map astype_float32 [v0, v1, v2, v3] ! k
                           < map astype_float32 [v0, v1, v2, v3] ! label)
         \<and> (\<forall>h < 4. [v0, v1, v2, v3] = (replicate 4 (Number 0 0))[h := Number 1 0]
                \<longrightarrow> label = h)"
proof -
  let ?vec = "map astype_float32 [v0, v1, v2, v3]"
  obtain label where a: "argmax ?vec = Inr label"
    using argmax_nonempty[of ?vec] by auto
  from argmax_first_max[OF a] have k: "label < 4"
    and le: "\<forall>k < 4. ?vec ! k \<le> ?vec ! label"
    and lt: "\<forall>k < label. ?vec ! k < ?vec ! label"
    by simp_all
  have g: "PlantDataset_getitem fs astype_float32 (PlantDataset df root_dir tf) idx
             = Inr (apply_transform tf im, int label)"
    by (rule getitem_result[of j idx df fs root_dir im v0 v1 v2 v3 astype_float32 label tf,
          OF j img c0 c1 c2 c3 a])
  have onehot: "label = h"
    if h: "h < 4" and vs: "[v0, v1, v2, v3] = (replicate 4 (Number 0 0))[h := Number 1 0]" for h
  proof (rule ccontr)
    assume ne: "label \<noteq> h"
    have "?vec ! h = F32 1"
      unfolding vs using h by (simp add: astype_float32_one)
    moreover have "?vec ! label = F32 0"
      unfolding vs using k ne by (simp add: astype_float32_zero)
    moreover have "?vec ! h \<le> ?vec ! label" using le h by blast
    ultimately show False by (simp add: less_eq_float32_def)
  qed
  show ?thesis
  proof (rule exI[of _ label], intro conjI)
    show "PlantDataset_getitem fs astype_float32 (PlantDataset df root_dir tf) idx
             = Inr (apply_transform tf im, int label)" by (rule g)
    show "label < 4" by (rule k)
    show "\<forall>k < 4. ?vec ! k \<le> ?vec ! label" by (rule le)
    show "\<forall>k < label. ?vec ! k < ?vec ! label" by (rule lt)
    show "\<forall>h < 4. [v0, v1, v2, v3] = (replicate 4 (Number 0 0))[h := Number 1 0] \<longrightarrow> label = h"
      using onehot by blast
  qed
qed


text \<open>
  The claim as stated fails: \<open>16777217\<close> is not a \<open>float32\<close> and rounds to \<open>16777216\<close>,
  so for the row \<open>(16777216, 16777217, 0, 0)\<close> the label is 0 although column 1 holds
  the larger value.
\<close>

theorem label_not_argmax_of_columns_counterexample:
  "PlantDataset_getitem
     ([''images/Train_0.jpg'' \<mapsto> Img (7::nat)] :: (nat, unit) filesystem) astype_float32
     (PlantDataset
        [\<lparr>image_id = ''Train_0'',
          cells = [''healthy'' \<mapsto> Number 16777216 0, ''multiple_diseases'' \<mapsto> Number 16777217 0,
                   ''rust'' \<mapsto> Number 0 0, ''scab'' \<mapsto> Number 0 0]\<rparr>]
        ''images'' None) 0 = Inr (7, 0)
   \<and> cell_value 16777216 0 < cell_value 16777217 0"
  by (simp add: PlantDataset_getitem_def PlantDataset_def py_index_def path_join_def
      image_open_def argmax_def apply_transform_def astype_float32_def round_nearest_even_def
      dyadic_def cell_value_def Let_def bit_length_numeral less_float32_def)

text \<open>The one-hot row with \<open>rust = 1\<close> is encoded as 2.\<close>

theorem getitem_label_first_argmax_witness:
  "PlantDataset_getitem
     ([''images/Train_0.jpg'' \<mapsto> Img (7::nat)] :: (nat, unit) filesystem) astype_float32
     (PlantDataset
        [\<lparr>image_id = ''Train_0'',
          cells = [''healthy'' \<mapsto> Number 0 0, ''multiple_diseases'' \<mapsto> Number 0 0,
                   ''rust'' \<mapsto> Number 1 0, ''scab'' \<mapsto> Number 0 0]\<rparr>]
        ''images'' None) 0 = Inr (7, 2)"
proof -
  let ?fs = "[''images/Train_0.jpg'' \<mapsto> Img (7::nat)] :: (nat, unit) filesystem"
  let ?r = "\<lparr>image_id = ''Train_0'',
          cells = [''healthy'' \<mapsto> Number 0 0, ''multiple_diseases'' \<mapsto> Number 0 0,
                   ''rust'' \<mapsto> Number 1 0, ''scab'' \<mapsto> Number 0 0]\<rparr>"
  have j: "(0::int) = (if (0::int) < 0 then int (length [?r]) + 0 else 0)" "(0::int) \<le> 0"
    "(0::int) < int (length [?r])" by simp_all
  have img: "?fs (path_join ''images'' (image_id ([?r] ! nat 0) @ ''.jpg'')) = Some (Img 7)"
    by (simp add: path_join_def)
  have c0: "cells ([?r] ! nat 0) ''healthy'' = Some (Number 0 0)" by simp
  have c1: "cells ([?r] ! nat 0) ''multiple_diseases'' = Some (Number 0 0)" by simp
  have c2: "cells ([?r] ! nat 0) ''rust'' = Some (Number 1 0)" by simp
  have c3: "cells ([?r] ! nat 0) ''scab'' = Some (Number 0 0)" by simp
  from getitem_label_first_argmax[of 0 0 "[?r]" ?fs "''images''" 7
      "Number 0 0" "Number 0 0" "Number 1 0" "Number 0 0" None, OF j img c0 c1 c2 c3]
  obtain label where g: "PlantDataset_getitem ?fs astype_float32 (PlantDataset [?r] ''images'' None) 0
             = Inr (apply_transform None 7, int label)"
    and oh: "\<forall>h < 4. [Number 0 0, Number 0 0, Number 1 0, Number 0 0]
                 = (replicate 4 (Number 0 0))[h := Number 1 0] \<longrightarrow> label = h"
    by blast
  have "[Number 0 0, Number 0 0, Number 1 0, Number 0 0] = (replicate 4 (Number 0 0))[2 := Number 1 0]"
    by (simp add: numeral_eq_Suc)
  with oh have "label = 2" by simp
  with g show ?thesis by (simp add: apply_transform_def)
qed

text \<open>A row with an empty cell: the label is the position of the not-a-number.\<close>

lemma getitem_nan_cell:
  "PlantDataset_getitem
     ([''images/Train_0.jpg'' \<mapsto> Img (7::nat)] :: (nat, unit) filesystem) astype_float32
     (PlantDataset
        [\<lparr>image_id = ''Train_0'',
          cells = [''healthy'' \<mapsto> Number 0 0, ''multiple_diseases'' \<mapsto> NotANumber,
                   ''rust'' \<mapsto> Number 1 0, ''scab'' \<mapsto> Number 0 0]\<rparr>]
        ''images'' None) 0 = Inr (7, 1)"
  by (simp add: PlantDataset_getitem_def PlantDataset_def py_index_def path_join_def
      image_open_def argmax_def apply_transform_def astype_float32_def round_nearest_even_def
      dyadic_def Let_def bit_length_numeral less_float32_def)

section \<open>Unreadable images\<close>

lemma fetch_all_raises:
  assumes "i \<in> set order" and "TransformSubset_getitem fs f32 ts (int i) = Inl e"
  shows "\<exists>e'. fetch_all fs f32 ts order = Inl e'"
  using assms by (induction order) (auto split: sum.splits)

lemma fetch_all_length:
  "fetch_all fs f32 ts order = Inr exs \<Longrightarrow> length exs = length order"
  by (induction order arbitrary: exs) (auto split: sum.splits)

lemma fetch_all_nth:
  "fetch_all fs f32 ts order = Inr exs \<Longrightarrow> k < length order \<Longrightarrow>
   TransformSubset_getitem fs f32 ts (int (order ! k)) = Inr (exs ! k)"
proof (induction order arbitrary: exs k)
  case Nil
  then show ?case by simp
next
  case (Cons i rest)
  then show ?case by (cases k) (auto split: sum.splits)
qed

lemma image_open_not_img:
  assumes bad: "\<forall>im. fs p \<noteq> Some (Img im)"
  shows "\<exists>e. image_open fs p = Inl e
          \<and> e \<in> {FileNotFoundError, IsADirectoryError, UnidentifiedImageError}
          \<and> (fs p = None \<longrightarrow> e = FileNotFoundError)"
proof (cases "fs p")
  case None
  then show ?thesis by (simp add: image_open_def)
next
  case (Some n)
  with bad show ?thesis by (cases n) (simp_all add: image_open_def)
qed

lemma getitem_image_error:
  assumes r: "py_index (pd_dataframe ds) idx = Inr r"
    and io: "image_open fs (path_join (pd_root_dir ds) (image_id r @ ''.jpg'')) = Inl e"
  shows "PlantDataset_getitem fs f32 ds idx = Inl e"
  using r io by (simp add: PlantDataset_getitem_def Let_def)

lemma TransformSubset_getitem_propagates:
  assumes g: "PlantDataset_getitem fs f32 ds idx = Inl e"
    and "ss_dataset (ts_subset ts) = ds" "py_index (ss_indices (ts_subset ts)) i = Inr j" "int j = idx"
  shows "TransformSubset_getitem fs f32 ts i = Inl e"
  using assms by (simp add: TransformSubset_getitem_def Subset_getitem_def)

text \<open>
  Claim C6. When the image file of the row at an index is absent or cannot be decoded,
  \<open>__getitem__\<close> raises; the exception passes through \<open>Subset\<close> and
  \<open>TransformSubset\<close> unchanged, and a loader pass that reaches the index raises as well:
  no example is returned and the index is not skipped.
\<close>

theorem getitem_unreadable_image_raises:
  assumes r: "py_index (pd_dataframe ds) idx = Inr r"
    and bad: "\<forall>im. fs (path_join (pd_root_dir ds) (image_id r @ ''.jpg'')) \<noteq> Some (Img im)"
  shows "\<exists>e. PlantDataset_getitem fs f32 ds idx = Inl e
           \<and> e \<in> {FileNotFoundError, IsADirectoryError, UnidentifiedImageError}
           \<and> (fs (path_join (pd_root_dir ds) (image_id r @ ''.jpg'')) = None \<longrightarrow> e = FileNotFoundError)
           \<and> (\<forall>ts i j. ss_dataset (ts_subset ts) = ds \<and> py_index (ss_indices (ts_subset ts)) i = Inr j
                  \<and> int j = idx \<longrightarrow> TransformSubset_getitem fs f32 ts i = Inl e)
           \<and> (\<forall>ts order i. ss_dataset (ts_subset ts) = ds \<and> i \<in> set order
                  \<and> py_index (ss_indices (ts_subset ts)) (int i) = Inr (nat idx) \<and> 0 \<le> idx
                  \<longrightarrow> (\<exists>e'. fetch_all fs f32 ts order = Inl e'))"
proof -
  let ?p = "path_join (pd_root_dir ds) (image_id r @ ''.jpg'')"
  from image_open_not_img[of fs ?p, OF bad] obtain e where io: "image_open fs ?p = Inl e"
    and e: "e \<in> {FileNotFoundError, IsADirectoryError, UnidentifiedImageError}"
    and en: "fs ?p = None \<longrightarrow> e = FileNotFoundError"
    by (elim exE conjE)
  have g: "PlantDataset_getitem fs f32 ds idx = Inl e"
    using r io by (rule getitem_image_error)
  show ?thesis
  proof (rule exI[of _ e], intro conjI allI impI)
    show "PlantDataset_getitem fs f32 ds idx = Inl e" by (rule g)
    show "e \<in> {FileNotFoundError, IsADirectoryError, UnidentifiedImageError}" by (rule e)
    show "e = FileNotFoundError" if "fs ?p = None" using en that by (rule mp)
  next
    fix ts :: "'a transform_subset" and i j
    assume a: "ss_dataset (ts_subset ts) = ds \<and> py_index (ss_indices (ts_subset ts)) i = Inr j \<and> int j = idx"
    from a have a1: "ss_dataset (ts_subset ts) = ds"
      and a2: "py_index (ss_indices (ts_subset ts)) i = Inr j" and a3: "int j = idx"
      by blast+
    show "TransformSubset_getitem fs f32 ts i = Inl e"
      by (rule TransformSubset_getitem_propagates[OF g a1 a2 a3])
  next
    fix ts :: "'a transform_subset" and order i
    assume a: "ss_dataset (ts_subset ts) = ds \<and> i \<in> set order
                  \<and> py_index (ss_indices (ts_subset ts)) (int i) = Inr (nat idx) \<and> 0 \<le> idx"
    from a have a1: "ss_dataset (ts_subset ts) = ds" and a2: "i \<in> set order"
      and a3: "py_index (ss_indices (ts_subset ts)) (int i) = Inr (nat idx)" and a4: "0 \<le> idx"
      by blast+
    from a4 have a5: "int (nat idx) = idx" by simp
    have "TransformSubset_getitem fs f32 ts (int i) = Inl e"
      by (rule TransformSubset_getitem_propagates[OF g a1 a3 a5])
    with a2 show "\<exists>e'. fetch_all fs f32 ts order = Inl e'" by (rule fetch_all_raises)
  qed
qed

theorem getitem_unreadable_image_raises_witness:
  "PlantDataset_getitem (Map.empty :: (nat, unit) filesystem) astype_float32
     (PlantDataset
        [\<lparr>image_id = ''Train_0'',
          cells = [''healthy'' \<mapsto> Number 0 0, ''multiple_diseases'' \<mapsto> Number 0 0,
                   ''rust'' \<mapsto> Number 1 0, ''scab'' \<mapsto> Number 0 0]\<rparr>]
        ''images'' None) 0 = Inl FileNotFoundError"
proof -
  let ?r = "\<lparr>image_id = ''Train_0'',
          cells = [''healthy'' \<mapsto> Number 0 0, ''multiple_diseases'' \<mapsto> Number 0 0,
                   ''rust'' \<mapsto> Number 1 0, ''scab'' \<mapsto> Number 0 0]\<rparr>"
  let ?ds = "PlantDataset [?r] ''images'' None :: nat plant_dataset"
  have r: "py_index (pd_dataframe ?ds) 0 = Inr ?r" by (simp add: py_index_def PlantDataset_def)
  have bad: "\<forall>im. (Map.empty :: (nat, unit) filesystem) (path_join (pd_root_dir ?ds) (image_id ?r @ ''.jpg''))
               \<noteq> Some (Img im)" by simp
  from getitem_unreadable_image_raises[of ?ds 0 ?r Map.empty astype_float32, OF r bad]
  obtain e where g: "PlantDataset_getitem (Map.empty :: (nat, unit) filesystem) astype_float32 ?ds 0 = Inl e"
    and n: "(Map.empty :: (nat, unit) filesystem) (path_join (pd_root_dir ?ds) (image_id ?r @ ''.jpg'')) = None
            \<longrightarrow> e = FileNotFoundError"
    by blast
  from n have "e = FileNotFoundError" by simp
  with g show ?thesis by simp
qed

section \<open>The loaders built by \<open>get_dataloaders\<close>\<close>

lemma get_dataloaders_InrD:
  assumes "get_dataloaders fs train_tf val_tf perm data_dir batch_size = Inr (trl, val, tel)"
  shows "\<exists>tr va te. get_datasets fs train_tf val_tf perm data_dir default_split_ratios = Inr (tr, va, te)
           \<and> 0 < batch_size \<and> 0 < TransformSubset_len tr
           \<and> trl = \<lparr>dl_dataset = tr, dl_batch_size = batch_size, dl_shuffle = True\<rparr>
           \<and> val = \<lparr>dl_dataset = va, dl_batch_size = batch_size, dl_shuffle = False\<rparr>
           \<and> tel = \<lparr>dl_dataset = te, dl_batch_size = batch_size, dl_shuffle = False\<rparr>"
  using assms by (auto simp: get_dataloaders_def split: sum.splits if_splits)

lemma get_dataloaders_default_result:
  assumes csv: "fs (path_join data_dir ''train.csv'') = Some (Csv df)"
    and img: "fs (path_join data_dir ''images'') \<noteq> None"
    and n: "length df < 2 ^ 50"
    and lp: "length perm = length df"
    and bs: "0 < batch_size"
    and tr: "0 < 4 * length df div 5"
  shows "get_dataloaders fs train_tf val_tf perm data_dir batch_size =
        Inr (\<lparr>dl_dataset =
                \<lparr>ts_subset = \<lparr>ss_dataset = PlantDataset df (path_join data_dir ''images'') None,
                               ss_indices = take (4 * length df div 5) perm\<rparr>,
                 ts_transform = train_tf\<rparr>,
               dl_batch_size = batch_size, dl_shuffle = True\<rparr>,
             \<lparr>dl_dataset =
                \<lparr>ts_subset = \<lparr>ss_dataset = PlantDataset df (path_join data_dir ''images'') None,
                               ss_indices = take (length df div 10) (drop (4 * length df div 5) perm)\<rparr>,
                 ts_transform = val_tf\<rparr>,
               dl_batch_size = batch_size, dl_shuffle = False\<rparr>,
             \<lparr>dl_dataset =
                \<lparr>ts_subset = \<lparr>ss_dataset = PlantDataset df (path_join data_dir ''images'') None,
                               ss_indices = drop (4 * length df div 5 + length df div 10) perm\<rparr>,
                 ts_transform = val_tf\<rparr>,
               dl_batch_size = batch_size, dl_shuffle = False\<rparr>)"
proof -
  have "5 * (4 * length df div 5) \<le> 4 * length df" by simp
  then have "4 * length df div 5 \<le> length perm" using lp by linarith
  then have "length (take (4 * length df div 5) perm) = 4 * length df div 5" by simp
  with tr have ne: "TransformSubset_len
      \<lparr>ts_subset = \<lparr>ss_dataset = PlantDataset df (path_join data_dir ''images'') None,
                     ss_indices = take (4 * length df div 5) perm\<rparr>,
       ts_transform = train_tf\<rparr> \<noteq> 0"
    by (simp add: TransformSubset_len_def)
  show ?thesis
    using get_datasets_default_result[of fs data_dir df perm train_tf val_tf, OF csv img n lp] bs ne
    by (simp add: get_dataloaders_def)
qed

text \<open>
  The loaders for a manifest of 100 rows under \<open>data\<close> and the identity permutation: the
  splits are the rows \<open>0..79\<close>, \<open>80..89\<close> and \<open>90..99\<close>.
\<close>

lemma get_dataloaders_hundred_rows:
  assumes csv: "fs ''data/train.csv'' = Some (Csv df)"
    and img: "fs ''data/images'' \<noteq> None"
    and n: "length df = 100"
  shows "get_dataloaders fs train_tf val_tf [0..<100] ''data'' 32 =
        Inr (\<lparr>dl_dataset =
                \<lparr>ts_subset = \<lparr>ss_dataset = PlantDataset df ''data/images'' None,
                               ss_indices = [0..<80]\<rparr>,
                 ts_transform = train_tf\<rparr>,
               dl_batch_size = 32, dl_shuffle = True\<rparr>,
             \<lparr>dl_dataset =
                \<lparr>ts_subset = \<lparr>ss_dataset = PlantDataset df ''data/images'' None,
                               ss_indices = [80..<90]\<rparr>,
                 ts_transform = val_tf\<rparr>,
               dl_batch_size = 32, dl_shuffle = False\<rparr>,
             \<lparr>dl_dataset =
                \<lparr>ts_subset = \<lparr>ss_dataset = PlantDataset df ''data/images'' None,
                               ss_indices = [90..<100]\<rparr>,
                 ts_transform = val_tf\<rparr>,
               dl_batch_size = 32, dl_shuffle = False\<rparr>)"
proof -
  have pj_csv: "path_join ''data'' ''train.csv'' = ''data/train.csv''" by (simp add: path_join_def)
  have pj_img: "path_join ''data'' ''images'' = ''data/images''" by (simp add: path_join_def)
  have csv': "fs (path_join ''data'' ''train.csv'') = Some (Csv df)" unfolding pj_csv by (rule csv)
  have img': "fs (path_join ''data'' ''images'') \<noteq> None" unfolding pj_img by (rule img)
  have n': "length df < 2 ^ 50" using n by simp
  have lp: "length [0..<100] = length df" using n by simp
  have bs: "0 < (32::nat)" by simp
  have tr: "0 < 4 * length df div 5" using n by simp
  show ?thesis
    using get_dataloaders_default_result[of fs "''data''" df "[0..<100]" 32 train_tf val_tf,
        OF csv' img' n' lp bs tr]
    by (simp add: n pj_img)
qed


section \<open>Labels of the splits\<close>

lemma random_split_dataset:
  assumes "random_split ds lengths perm = Inr subs" "s \<in> set subs"
  shows "ss_dataset s = ds"
  using assms by (auto simp: random_split_def split: if_splits)

lemma unpack3_InrD: "unpack3 xs = Inr (a, b, c) \<Longrightarrow> xs = [a, b, c]"
  by (cases xs rule: unpack3.cases) simp_all

lemma get_datasets_InrD:
  assumes "get_datasets fs train_tf val_tf perm data_dir ratios = Inr (tr, va, te)"
  shows "\<exists>df lengths a b c.
           random_split (PlantDataset df (path_join data_dir ''images'') None) lengths perm = Inr [a, b, c]
         \<and> tr = \<lparr>ts_subset = a, ts_transform = train_tf\<rparr>
         \<and> va = \<lparr>ts_subset = b, ts_transform = val_tf\<rparr>
         \<and> te = \<lparr>ts_subset = c, ts_transform = val_tf\<rparr>"
  using assms
  by (auto simp: get_datasets_def Let_def split: if_splits sum.splits dest!: unpack3_InrD) blast


lemma get_datasets_classes:
  assumes g: "get_datasets fs train_tf val_tf perm data_dir ratios = Inr (tr, va, te)"
    and ts: "ts \<in> {tr, va, te}"
  shows "pd_classes (ss_dataset (ts_subset ts)) = [''healthy'', ''multiple_diseases'', ''rust'', ''scab'']"
proof -
  from get_datasets_InrD[OF g] obtain df lengths a b c where
    rs: "random_split (PlantDataset df (path_join data_dir ''images'') None) lengths perm = Inr [a, b, c]"
    and tr: "tr = \<lparr>ts_subset = a, ts_transform = train_tf\<rparr>"
    and va: "va = \<lparr>ts_subset = b, ts_transform = val_tf\<rparr>"
    and te: "te = \<lparr>ts_subset = c, ts_transform = val_tf\<rparr>"
    by blast
  have "ts_subset ts \<in> set [a, b, c]" using ts tr va te by auto
  with rs have "ss_dataset (ts_subset ts) = PlantDataset df (path_join data_dir ''images'') None"
    by (rule random_split_dataset)
  then show ?thesis by (simp add: PlantDataset_def)
qed

lemma TransformSubset_getitem_InrD:
  assumes "TransformSubset_getitem fs f32 ts i = Inr (x, y)"
  shows "\<exists>j x0. py_index (ss_indices (ts_subset ts)) i = Inr j
           \<and> PlantDataset_getitem fs f32 (ss_dataset (ts_subset ts)) (int j) = Inr (x0, y)
           \<and> x = apply_transform (ts_transform ts) x0"
  using assms
  by (auto simp: TransformSubset_getitem_def Subset_getitem_def split: sum.splits)

lemma getitem_label_bound:
  assumes "PlantDataset_getitem fs f32 ds idx = Inr (x, y)"
  shows "0 \<le> y \<and> y < int (length (pd_classes ds))"
proof -
  from getitem_InrD[OF assms] obtain r vals k where
    v: "select_cells r (pd_classes ds) = Inr vals"
    and a: "argmax (map f32 vals) = Inr k" and y: "y = int k"
    by blast
  from argmax_first_max[OF a] have "k < length (map f32 vals)" by blast
  then have "k < length (pd_classes ds)" using select_cells_length[OF v] by simp
  with y show ?thesis by simp
qed

text \<open>
  Claim C10. The class columns are fixed by \<open>PlantDataset.__init__\<close> to the four names
  \<open>[healthy, multiple_diseases, rust, scab]\<close>, so every label that the item accessor
  returns for an example of the train, validation or test split lies in
  \<open>{0, 1, 2, 3}\<close>, whatever the arguments of the run, \<open>num_classes\<close> included.
\<close>

theorem split_labels_in_range:
  assumes dl: "get_dataloaders fs train_tf val_tf perm (ta_data_dir args) (ta_batch_size args)
                 = Inr (train_loader, val_loader, test_loader)"
    and l: "loader \<in> {train_loader, val_loader, test_loader}"
    and ex: "TransformSubset_getitem fs' f32 (dl_dataset loader) i = Inr (x, y)"
  shows "y \<in> {0, 1, 2, 3}"
proof -
  from get_dataloaders_InrD[OF dl] obtain tr va te where
    g: "get_datasets fs train_tf val_tf perm (ta_data_dir args) default_split_ratios = Inr (tr, va, te)"
    and trl: "dl_dataset train_loader = tr" and val: "dl_dataset val_loader = va"
    and tel: "dl_dataset test_loader = te"
    by auto
  have "dl_dataset loader \<in> {tr, va, te}" using l trl val tel by auto
  with g have c: "pd_classes (ss_dataset (ts_subset (dl_dataset loader)))
                  = [''healthy'', ''multiple_diseases'', ''rust'', ''scab'']"
    by (rule get_datasets_classes)
  from TransformSubset_getitem_InrD[OF ex] obtain j x0 where
    "PlantDataset_getitem fs' f32 (ss_dataset (ts_subset (dl_dataset loader))) (int j) = Inr (x0, y)"
    by blast
  from getitem_label_bound[OF this] c have "0 \<le> y \<and> y < 4" by simp
  then show ?thesis by auto
qed



lemma TransformSubset_getitem_at:
  assumes "py_index idxs i = Inr j" "PlantDataset_getitem fs f32 ds (int j) = Inr (x, y)"
  shows "TransformSubset_getitem fs f32
           \<lparr>ts_subset = \<lparr>ss_dataset = ds, ss_indices = idxs\<rparr>, ts_transform = tf\<rparr> i
         = Inr (apply_transform tf x, y)"
  using assms by (simp add: TransformSubset_getitem_def Subset_getitem_def)

lemma argmax_rust: "argmax [F32 0, F32 0, F32 1, F32 0] = Inr 2"
  by (simp add: argmax_def less_float32_def)

text \<open>
  A run with \<open>num_classes = 38\<close> on a manifest of 100 one-hot rows: the first example of
  the test loader is row 90 and has label 2.
\<close>

theorem split_labels_in_range_witness:
  "\<exists>train_loader val_loader test_loader.
     get_dataloaders
       ([''data/train.csv'' \<mapsto> Csv (replicate 100 \<lparr>image_id = ''Train_0'',
            cells = [''healthy'' \<mapsto> Number 0 0, ''multiple_diseases'' \<mapsto> Number 0 0,
                     ''rust'' \<mapsto> Number 1 0, ''scab'' \<mapsto> Number 0 0]\<rparr>),
         ''data/images'' \<mapsto> Dir,
         ''data/images/Train_0.jpg'' \<mapsto> Img (7::nat)] :: (nat, unit) filesystem)
       None None [0..<100]
       (ta_data_dir \<lparr>ta_data_dir = ''data'', ta_model = ''vit'', ta_epochs = 10, ta_batch_size = 32,
                     ta_num_classes = 38, ta_checkpoint_dir = ''checkpoints'', ta_dry_run = False\<rparr>)
       (ta_batch_size \<lparr>ta_data_dir = ''data'', ta_model = ''vit'', ta_epochs = 10, ta_batch_size = 32,
                     ta_num_classes = 38, ta_checkpoint_dir = ''checkpoints'', ta_dry_run = False\<rparr>)
       = Inr (train_loader, val_loader, test_loader)
     \<and> TransformSubset_getitem
          ([''data/train.csv'' \<mapsto> Csv (replicate 100 \<lparr>image_id = ''Train_0'',
            cells = [''healthy'' \<mapsto> Number 0 0, ''multiple_diseases'' \<mapsto> Number 0 0,
                     ''rust'' \<mapsto> Number 1 0, ''scab'' \<mapsto> Number 0 0]\<rparr>),
            ''data/images'' \<mapsto> Dir,
            ''data/images/Train_0.jpg'' \<mapsto> Img (7::nat)] :: (nat, unit) filesystem)
          astype_float32 (dl_dataset test_loader) 0 = Inr (7, 2)
     \<and> (2::int) \<in> {0, 1, 2, 3}"
proof -
  let ?r = "\<lparr>image_id = ''Train_0'',
            cells = [''healthy'' \<mapsto> Number 0 0, ''multiple_diseases'' \<mapsto> Number 0 0,
                     ''rust'' \<mapsto> Number 1 0, ''scab'' \<mapsto> Number 0 0]\<rparr>"
  let ?df = "replicate 100 ?r"
  let ?fs = "[''data/train.csv'' \<mapsto> Csv ?df, ''data/images'' \<mapsto> Dir,
              ''data/images/Train_0.jpg'' \<mapsto> Img (7::nat)] :: (nat, unit) filesystem"
  let ?args = "\<lparr>ta_data_dir = ''data'', ta_model = ''vit'', ta_epochs = 10, ta_batch_size = 32,
                     ta_num_classes = 38, ta_checkpoint_dir = ''checkpoints'', ta_dry_run = False\<rparr>"
  let ?ds = "PlantDataset ?df ''data/images'' None :: nat plant_dataset"
  let ?trl = "\<lparr>dl_dataset = \<lparr>ts_subset = \<lparr>ss_dataset = ?ds, ss_indices = [0..<80]\<rparr>, ts_transform = None\<rparr>,
               dl_batch_size = 32, dl_shuffle = True\<rparr>"
  let ?val = "\<lparr>dl_dataset = \<lparr>ts_subset = \<lparr>ss_dataset = ?ds, ss_indices = [80..<90]\<rparr>, ts_transform = None\<rparr>,
               dl_batch_size = 32, dl_shuffle = False\<rparr>"
  let ?tel = "\<lparr>dl_dataset = \<lparr>ts_subset = \<lparr>ss_dataset = ?ds, ss_indices = [90..<100]\<rparr>, ts_transform = None\<rparr>,
               dl_batch_size = 32, dl_shuffle = False\<rparr>"
  have csv: "?fs ''data/train.csv'' = Some (Csv ?df)" by simp
  have img: "?fs ''data/images'' \<noteq> None" by simp
  have n: "length ?df = 100" by simp
  have dl: "get_dataloaders ?fs None None [0..<100] (ta_data_dir ?args) (ta_batch_size ?args)
              = Inr (?trl, ?val, ?tel)"
    using get_dataloaders_hundred_rows[of ?fs ?df None None, OF csv img n] by simp
  have ix: "py_index [90..<100] 0 = Inr 90" by (simp add: py_index_def)
  have row: "?df ! nat 90 = ?r" by simp
  have j: "(90::int) = (if (90::int) < 0 then int (length ?df) + 90 else 90)" "(0::int) \<le> 90"
    "(90::int) < int (length ?df)" by simp_all
  have im: "?fs (path_join ''data/images'' (image_id (?df ! nat 90) @ ''.jpg'')) = Some (Img 7)"
    unfolding row by (simp add: path_join_def)
  have c0: "cells (?df ! nat 90) ''healthy'' = Some (Number 0 0)" unfolding row by simp
  have c1: "cells (?df ! nat 90) ''multiple_diseases'' = Some (Number 0 0)" unfolding row by simp
  have c2: "cells (?df ! nat 90) ''rust'' = Some (Number 1 0)" unfolding row by simp
  have c3: "cells (?df ! nat 90) ''scab'' = Some (Number 0 0)" unfolding row by simp
  have am: "argmax (map astype_float32 [Number 0 0, Number 0 0, Number 1 0, Number 0 0]) = Inr 2"
    by (simp add: astype_float32_zero astype_float32_one argmax_rust)
  have gi: "PlantDataset_getitem ?fs astype_float32 ?ds (int 90) = Inr (7, 2)"
    using getitem_result[of 90 90 ?df ?fs "''data/images''" 7 "Number 0 0" "Number 0 0"
        "Number 1 0" "Number 0 0" astype_float32 2 None, OF j im c0 c1 c2 c3 am]
    by (simp add: apply_transform_def)
  have ex: "TransformSubset_getitem ?fs astype_float32 (dl_dataset ?tel) 0 = Inr (7, 2)"
    using TransformSubset_getitem_at[of "[90..<100]" 0 90 ?fs astype_float32 ?ds 7 2 None, OF ix gi]
    by (simp add: apply_transform_def)
  have l: "?tel \<in> {?trl, ?val, ?tel}" by simp
  from split_labels_in_range[of ?fs None None "[0..<100]" ?args ?trl ?val ?tel ?tel ?fs
      astype_float32 0 7 2, OF dl l ex]
  have "(2::int) \<in> {0, 1, 2, 3}" .
  with dl ex show ?thesis by blast
qed

section \<open>Iteration order of the loaders\<close>

lemma loader_row_order_sequential:
  assumes "\<not> dl_shuffle dl"
  shows "loader_row_order dl draw = Inr (ss_indices (ts_subset (dl_dataset dl)))"
  using assms
  by (simp add: loader_row_order_def sampler_order_def TransformSubset_len_def Let_def map_nth)

lemma loader_row_order_shuffled:
  assumes "dl_shuffle dl" "\<forall>i \<in> set draw. i < length (ss_indices (ts_subset (dl_dataset dl)))"
  shows "loader_row_order dl draw = Inr (map (\<lambda>i. ss_indices (ts_subset (dl_dataset dl)) ! i) draw)"
  using assms by (simp add: loader_row_order_def sampler_order_def Let_def)

text \<open>
  Claim C5, as amended. When the train split is not empty (the manifest has at least two
  rows), the builder returns three loaders. The train loader visits its rows in the order
  that the sampler draws for the pass. The validation and test loaders visit theirs in the order of the
  index lists that \<open>random_split\<close> cut from its permutation, the same on every pass
  whatever is drawn; this is the order of the permutation, not of the manifest.
\<close>

theorem loaders_row_order:
  assumes csv: "fs (path_join data_dir ''train.csv'') = Some (Csv df)"
    and img: "fs (path_join data_dir ''images'') \<noteq> None"
    and n: "length df < 2 ^ 50"
    and lp: "length perm = length df"
    and bs: "0 < batch_size"
    and tr: "0 < 4 * length df div 5"
  shows "\<exists>train_loader val_loader test_loader.
           get_dataloaders fs train_tf val_tf perm data_dir batch_size
             = Inr (train_loader, val_loader, test_loader)
         \<and> (\<forall>draw. (\<forall>i \<in> set draw. i < 4 * length df div 5) \<longrightarrow>
                loader_row_order train_loader draw = Inr (map (\<lambda>i. perm ! i) draw))
         \<and> (\<forall>draw. loader_row_order val_loader draw
                = Inr (take (length df div 10) (drop (4 * length df div 5) perm)))
         \<and> (\<forall>draw. loader_row_order test_loader draw
                = Inr (drop (4 * length df div 5 + length df div 10) perm))"
proof -
  define a where "a = 4 * length df div 5"
  have "5 * a \<le> 4 * length df" unfolding a_def by simp
  then have al: "a \<le> length perm" using lp by linarith
  note g = get_dataloaders_default_result[of fs data_dir df perm batch_size train_tf val_tf,
      OF csv img n lp bs tr]
  have tr: "map (\<lambda>i. take a perm ! i) draw = map (\<lambda>i. perm ! i) draw"
    if "\<forall>i \<in> set draw. i < a" for draw
    using that by (intro map_cong) simp_all
  show ?thesis
    apply (rule exI)+
    apply (rule conjI, rule g)
    using al tr
    by (simp add: loader_row_order_sequential loader_row_order_shuffled a_def)
qed


text \<open>
  The claim as stated fails: for a manifest of 20 rows and the permutation
  \<open>19, 18, ..., 0\<close> the validation loader visits row 3 before row 2.
\<close>

theorem val_loader_order_counterexample:
  "get_dataloaders
     ([''data/train.csv'' \<mapsto> Csv (replicate 20 \<lparr>image_id = ''Train_0'', cells = Map.empty\<rparr>),
       ''data/images'' \<mapsto> Dir] :: (unit, unit) filesystem)
     None None [19, 18, 17, 16, 15, 14, 13, 12, 11, 10, 9, 8, 7, 6, 5, 4, 3, 2, 1, 0] ''data'' 32
   = Inr (\<lparr>dl_dataset =
            \<lparr>ts_subset =
               \<lparr>ss_dataset = PlantDataset (replicate 20 \<lparr>image_id = ''Train_0'', cells = Map.empty\<rparr>)
                               ''data/images'' None,
                ss_indices = [19, 18, 17, 16, 15, 14, 13, 12, 11, 10, 9, 8, 7, 6, 5, 4]\<rparr>,
             ts_transform = None\<rparr>,
           dl_batch_size = 32, dl_shuffle = True\<rparr>,
          \<lparr>dl_dataset =
            \<lparr>ts_subset =
               \<lparr>ss_dataset = PlantDataset (replicate 20 \<lparr>image_id = ''Train_0'', cells = Map.empty\<rparr>)
                               ''data/images'' None,
                ss_indices = [3, 2]\<rparr>,
             ts_transform = None\<rparr>,
           dl_batch_size = 32, dl_shuffle = False\<rparr>,
          \<lparr>dl_dataset =
            \<lparr>ts_subset =
               \<lparr>ss_dataset = PlantDataset (replicate 20 \<lparr>image_id = ''Train_0'', cells = Map.empty\<rparr>)
                               ''data/images'' None,
                ss_indices = [1, 0]\<rparr>,
             ts_transform = None\<rparr>,
           dl_batch_size = 32, dl_shuffle = False\<rparr>)
   \<and> loader_row_order
         \<lparr>dl_dataset =
            \<lparr>ts_subset =
               \<lparr>ss_dataset = PlantDataset (replicate 20 \<lparr>image_id = ''Train_0'', cells = Map.empty\<rparr>)
                               ''data/images'' (None :: (unit \<Rightarrow> unit) option),
                ss_indices = [3, 2]\<rparr>,
             ts_transform = None\<rparr>,
           dl_batch_size = 32, dl_shuffle = False\<rparr> [] = Inr [3, 2]
   \<and> \<not> sorted [3, 2 :: nat]"
proof -
  let ?df = "replicate 20 \<lparr>image_id = ''Train_0'', cells = Map.empty\<rparr>"
  let ?fs = "[''data/train.csv'' \<mapsto> Csv ?df, ''data/images'' \<mapsto> Dir] :: (unit, unit) filesystem"
  let ?perm = "[19, 18, 17, 16, 15, 14, 13, 12, 11, 10, 9, 8, 7, 6, 5, 4, 3, 2, 1, 0] :: nat list"
  have csv: "?fs (path_join ''data'' ''train.csv'') = Some (Csv ?df)" by (simp add: path_join_def)
  have img: "?fs (path_join ''data'' ''images'') \<noteq> None" by (simp add: path_join_def)
  have pj: "path_join ''data'' ''images'' = ''data/images''" by (simp add: path_join_def)
  have n: "length ?df < 2 ^ 50" by simp
  have lp: "length ?perm = length ?df" by simp
  have bs: "0 < (32::nat)" by simp
  have tr: "0 < 4 * length ?df div 5" by simp
  from get_dataloaders_default_result[of ?fs "''data''" ?df ?perm 32 None None, OF csv img n lp bs tr]
  show ?thesis
    by (simp add: pj loader_row_order_sequential)
qed

theorem loaders_row_order_witness:
  "\<exists>train_loader val_loader test_loader.
     get_dataloaders
       ([''data/train.csv'' \<mapsto> Csv (replicate 20 \<lparr>image_id = ''Train_0'', cells = Map.empty\<rparr>),
         ''data/images'' \<mapsto> Dir] :: (unit, unit) filesystem)
       None None [19, 18, 17, 16, 15, 14, 13, 12, 11, 10, 9, 8, 7, 6, 5, 4, 3, 2, 1, 0] ''data'' 32
       = Inr (train_loader, val_loader, test_loader)
     \<and> loader_row_order train_loader [1, 0] = Inr [18, 19]
     \<and> loader_row_order train_loader [0, 1] = Inr [19, 18]
     \<and> loader_row_order val_loader [] = Inr [3, 2]
     \<and> loader_row_order test_loader [] = Inr [1, 0]"
proof -
  let ?df = "replicate 20 \<lparr>image_id = ''Train_0'', cells = Map.empty\<rparr>"
  let ?fs = "[''data/train.csv'' \<mapsto> Csv ?df, ''data/images'' \<mapsto> Dir] :: (unit, unit) filesystem"
  let ?perm = "[19, 18, 17, 16, 15, 14, 13, 12, 11, 10, 9, 8, 7, 6, 5, 4, 3, 2, 1, 0] :: nat list"
  have csv: "?fs (path_join ''data'' ''train.csv'') = Some (Csv ?df)" by (simp add: path_join_def)
  have img: "?fs (path_join ''data'' ''images'') \<noteq> None" by (simp add: path_join_def)
  have n: "length ?df < 2 ^ 50" by simp
  have lp: "length ?perm = length ?df" by simp
  have bs: "0 < (32::nat)" by simp
  have tr: "0 < 4 * length ?df div 5" by simp
  from loaders_row_order[of ?fs "''data''" ?df ?perm 32 None None, OF csv img n lp bs tr]
  obtain trl val tel where
    g: "get_dataloaders ?fs None None ?perm ''data'' 32 = Inr (trl, val, tel)"
    and t: "\<forall>draw. (\<forall>i \<in> set draw. i < 4 * length ?df div 5) \<longrightarrow>
                loader_row_order trl draw = Inr (map (\<lambda>i. ?perm ! i) draw)"
    and v: "\<forall>draw. loader_row_order val draw
                = Inr (take (length ?df div 10) (drop (4 * length ?df div 5) ?perm))"
    and e: "\<forall>draw. loader_row_order tel draw
                = Inr (drop (4 * length ?df div 5 + length ?df div 10) ?perm)"
    by blast
  have t1: "loader_row_order trl [1, 0] = Inr [18, 19]" using spec[OF t, of "[1, 0]"] by simp
  have t2: "loader_row_order trl [0, 1] = Inr [19, 18]" using spec[OF t, of "[0, 1]"] by simp
  have v1: "loader_row_order val [] = Inr [3, 2]" using v[rule_format, of "[]"] by simp
  have e1: "loader_row_order tel [] = Inr [1, 0]" using e[rule_format, of "[]"] by simp
  show ?thesis using g t1 t2 v1 e1 by blast
qed


section \<open>Checkpoint selection\<close>

lemma rstrip_slashes_idem: "rstrip_slashes (rstrip_slashes p) = rstrip_slashes p"
  by (simp add: rstrip_slashes_def)

lemma rstrip_slashes_snoc_slash: "rstrip_slashes (p @ ''/'') = rstrip_slashes p"
  by (simp add: rstrip_slashes_def is_slash_def)

lemma makedirs_is_dir:
  assumes "makedirs fs d = Inr fs1" "\<not> list_all is_slash d"
  shows "fs1 (rstrip_slashes d) = Some Dir"
  using assms by (auto simp: makedirs_def split: if_splits option.splits node.splits)

lemma makedirs_nonempty: "makedirs fs d = Inr fs1 \<Longrightarrow> d \<noteq> []"
  by (auto simp: makedirs_def)

lemma dirname_append:
  assumes d: "d \<noteq> []" "is_slash (last d)" and name: "\<forall>c \<in> set name. \<not> is_slash c"
  shows "dirname (d @ name) = (if list_all is_slash d then d else rstrip_slashes d)"
proof -
  have "dropWhile (\<lambda>c. \<not> is_slash c) (rev name @ rev d) = dropWhile (\<lambda>c. \<not> is_slash c) (rev d)"
    using name by (intro dropWhile_append2) simp
  also have "\<dots> = rev d"
    using d by (cases d rule: rev_cases) simp_all
  finally have "rev (dropWhile (\<lambda>c. \<not> is_slash c) (rev (d @ name))) = d" by simp
  then show ?thesis using d by (simp add: dirname_def Let_def)
qed

lemma checkpoint_dir_is_parent:
  assumes mk: "makedirs fs cd = Inr fs1"
    and name: "name \<noteq> []" "\<forall>c \<in> set name. \<not> is_slash c"
  shows "is_dir fs1 (dirname (path_join cd name))"
proof -
  have cd: "cd \<noteq> []" using mk by (rule makedirs_nonempty)
  have hd: "hd name \<noteq> CHR ''/''" using name by (cases name) (auto simp: is_slash_def)
  show ?thesis
  proof (cases "last cd = CHR ''/''")
    case True
    then have pj: "path_join cd name = cd @ name" using hd by (simp add: path_join_def)
    have "dirname (cd @ name) = (if list_all is_slash cd then cd else rstrip_slashes cd)"
      using cd True name(2) by (intro dirname_append) (simp_all add: is_slash_def)
    then show ?thesis
      using makedirs_is_dir[OF mk] by (auto simp: pj is_dir_def rstrip_slashes_idem)
  next
    case False
    then have pj: "path_join cd name = (cd @ ''/'') @ name" using hd cd by (simp add: path_join_def)
    have "dirname ((cd @ ''/'') @ name)
          = (if list_all is_slash (cd @ ''/'') then cd @ ''/'' else rstrip_slashes (cd @ ''/''))"
      using name(2) by (intro dirname_append) (simp_all add: is_slash_def)
    then show ?thesis
      using makedirs_is_dir[OF mk]
      by (auto simp: pj is_dir_def rstrip_slashes_idem rstrip_slashes_snoc_slash is_slash_def)
  qed
qed

lemma torch_save_writable:
  assumes "fs p \<noteq> Some Dir" "is_dir fs (dirname p)"
  shows "torch_save fs p w = Inr (fs(p \<mapsto> Ckpt w))"
    and "(fs(p \<mapsto> Ckpt w)) p \<noteq> Some Dir"
    and "is_dir (fs(p \<mapsto> Ckpt w)) (dirname p)"
  using assms by (auto simp: torch_save_def is_dir_def)


lemma completed_epochs_snoc:
  "completed_epochs outcome (es @ [e]) =
     (case first_raised outcome es of
        Some err \<Rightarrow> completed_epochs outcome es
      | None \<Rightarrow>
          (case outcome e of
             Raised err \<Rightarrow> completed_epochs outcome es
           | Validated a w \<Rightarrow> completed_epochs outcome es @ [(a, w)]))"
  by (induction es) (auto split: epoch_outcome.splits option.splits)

lemma first_raised_snoc:
  "first_raised outcome (es @ [e]) =
     (case first_raised outcome es of
        Some err \<Rightarrow> Some err
      | None \<Rightarrow> (case outcome e of Raised err \<Rightarrow> Some err | Validated a w \<Rightarrow> None))"
  by (induction es) (auto split: epoch_outcome.splits option.splits)

lemma train_loop_append:
  "train_loop p outcome (xs @ ys) s =
     (case train_loop p outcome xs s of
        (s', None) \<Rightarrow> train_loop p outcome ys s'
      | (s', Some e) \<Rightarrow> (s', Some e))"
  by (induction xs arbitrary: s) (auto split: epoch_outcome.splits prod.splits option.splits)

lemma best_so_far_snoc:
  "best_so_far b (accs @ [a]) =
     (case a of Num x \<Rightarrow> max (best_so_far b accs) x | NaN \<Rightarrow> best_so_far b accs)"
  by (simp add: best_so_far_def numbers_def split: score.splits)

lemma best_so_far_ge: "b \<le> best_so_far b accs"
proof (induction accs rule: rev_induct)
  case Nil
  then show ?case by (simp add: best_so_far_def numbers_def)
next
  case (snoc a accs)
  then show ?case by (auto simp: best_so_far_snoc max.coboundedI1 split: score.splits)
qed

lemma improving_epochs_snoc:
  "improving_epochs b (accs @ [a]) =
     improving_epochs b accs @ (if score_gt a (best_so_far b accs) then [length accs] else [])"
proof -
  have "filter (\<lambda>i. score_gt ((accs @ [a]) ! i) (best_so_far b (take i (accs @ [a])))) [0..<length accs]
        = filter (\<lambda>i. score_gt (accs ! i) (best_so_far b (take i accs))) [0..<length accs]"
    by (rule filter_cong) (auto simp: nth_append)
  then show ?thesis by (simp add: improving_epochs_def)
qed

lemma improving_epochs_bound: "i \<in> set (improving_epochs b accs) \<Longrightarrow> i < length accs"
  by (auto simp: improving_epochs_def)


lemma save_best_model_writes:
  assumes "score_gt a (rs_best_acc s)" "rs_fs s p \<noteq> Some Dir" "is_dir (rs_fs s) (dirname p)"
  shows "save_best_model p a w s =
           (s\<lparr>rs_best_acc := score_value a, rs_fs := (rs_fs s)(p \<mapsto> Ckpt w),
              rs_saves := rs_saves s @ [(p, w)]\<rparr>, None)"
  using assms torch_save_writable(1)[of "rs_fs s" p w]
  by (simp add: save_best_model_def Let_def)

lemma save_best_model_skips:
  assumes "\<not> score_gt a (rs_best_acc s)"
  shows "save_best_model p a w s = (s, None)"
  using assms by (simp add: save_best_model_def)

lemma train_loop_result:
  fixes s0 :: "('img, 'w) run_state"
  assumes W: "rs_fs s0 p \<noteq> Some Dir" "is_dir (rs_fs s0) (dirname p)"
  shows "\<exists>s'. train_loop p outcome es s0 = (s', first_raised outcome es)
           \<and> rs_saves s' = rs_saves s0 @
                 map (\<lambda>i. (p, map snd (completed_epochs outcome es) ! i))
                   (improving_epochs (rs_best_acc s0) (map fst (completed_epochs outcome es)))
           \<and> rs_best_acc s' = best_so_far (rs_best_acc s0) (map fst (completed_epochs outcome es))
           \<and> rs_fs s' =
                (if improving_epochs (rs_best_acc s0) (map fst (completed_epochs outcome es)) = []
                 then rs_fs s0
                 else (rs_fs s0)(p \<mapsto> Ckpt (map snd (completed_epochs outcome es) !
                        last (improving_epochs (rs_best_acc s0)
                               (map fst (completed_epochs outcome es))))))"
proof (induction es rule: rev_induct)
  case Nil
  show ?case by (simp add: improving_epochs_def best_so_far_def numbers_def)
next
  case (snoc e es)
  define tr where "tr = completed_epochs outcome es"
  define accs where "accs = map fst tr"
  define ws where "ws = map snd tr"
  define b where "b = rs_best_acc s0"
  define imp where "imp = improving_epochs b accs"
  have lw: "length ws = length accs" by (simp add: ws_def accs_def)
  from snoc.IH obtain s1 where
    t1: "train_loop p outcome es s0 = (s1, first_raised outcome es)"
    and sv: "rs_saves s1 = rs_saves s0 @ map (\<lambda>i. (p, ws ! i)) imp"
    and bs: "rs_best_acc s1 = best_so_far b accs"
    and fs: "rs_fs s1 = (if imp = [] then rs_fs s0 else (rs_fs s0)(p \<mapsto> Ckpt (ws ! last imp)))"
    unfolding tr_def accs_def ws_def b_def imp_def by blast
  have W1: "rs_fs s1 p \<noteq> Some Dir" "is_dir (rs_fs s1) (dirname p)"
    using fs W torch_save_writable(2,3)[OF W] by (auto split: if_splits)
  have in_range: "\<forall>i \<in> set imp. i < length accs"
    unfolding imp_def by (auto dest: improving_epochs_bound)
  have goal_same: ?case
    if tl: "train_loop p outcome (es @ [e]) s0 = (s1, first_raised outcome (es @ [e]))"
      and ce: "completed_epochs outcome (es @ [e]) = tr"
  proof -
    show ?thesis
      apply (rule exI[of _ s1])
      using tl sv bs fs
      by (simp add: ce accs_def[symmetric] ws_def[symmetric] b_def[symmetric] imp_def[symmetric])
  qed
  show ?case
  proof (cases "first_raised outcome es")
    case (Some err)
    have "train_loop p outcome (es @ [e]) s0 = (s1, first_raised outcome (es @ [e]))"
      using t1 Some by (simp add: train_loop_append first_raised_snoc)
    moreover have "completed_epochs outcome (es @ [e]) = tr"
      using Some by (simp add: completed_epochs_snoc tr_def)
    ultimately show ?thesis by (rule goal_same)
  next
    case None
    show ?thesis
    proof (cases "outcome e")
      case (Raised err)
      have "train_loop p outcome (es @ [e]) s0 = (s1, first_raised outcome (es @ [e]))"
        using t1 None Raised by (simp add: train_loop_append first_raised_snoc)
      moreover have "completed_epochs outcome (es @ [e]) = tr"
        using None Raised by (simp add: completed_epochs_snoc tr_def)
      ultimately show ?thesis by (rule goal_same)
    next
      case (Validated a w)
      have ce: "completed_epochs outcome (es @ [e]) = tr @ [(a, w)]"
        using None Validated by (simp add: completed_epochs_snoc tr_def)
      have fr: "first_raised outcome (es @ [e]) = None"
        using None Validated by (simp add: first_raised_snoc)
      have accs': "map fst (tr @ [(a, w)]) = accs @ [a]" by (simp add: accs_def)
      have ws': "map snd (tr @ [(a, w)]) = ws @ [w]" by (simp add: ws_def)
      have mp: "map (\<lambda>i. (p, (ws @ [w]) ! i)) imp = map (\<lambda>i. (p, ws ! i)) imp"
        using in_range lw by (intro map_cong) (auto simp: nth_append)
      show ?thesis
      proof (cases "score_gt a (best_so_far b accs)")
        case True
        then obtain x where a: "a = Num x" and x: "best_so_far b accs < x"
          by (cases a) (auto simp: score_gt_def)
        have tl: "train_loop p outcome (es @ [e]) s0 =
                    (s1\<lparr>rs_best_acc := score_value a, rs_fs := (rs_fs s1)(p \<mapsto> Ckpt w),
                        rs_saves := rs_saves s1 @ [(p, w)]\<rparr>, None)"
          using t1 None Validated True W1 bs
          by (simp add: train_loop_append save_best_model_writes)
        have imp': "improving_epochs b (accs @ [a]) = imp @ [length accs]"
          using True by (simp add: improving_epochs_snoc imp_def)
        show ?thesis
          apply (rule exI, rule conjI)
           apply (simp only: tl fr)
          unfolding ce accs' ws' b_def[symmetric] imp'
          using sv fs mp lw a x
          by (auto simp: best_so_far_snoc score_value_def nth_append)
      next
        case False
        have tl: "train_loop p outcome (es @ [e]) s0 = (s1, None)"
          using t1 None Validated False bs
          by (simp add: train_loop_append save_best_model_skips)
        have imp': "improving_epochs b (accs @ [a]) = imp"
          using False by (simp add: improving_epochs_snoc imp_def)
        have bs': "best_so_far b (accs @ [a]) = best_so_far b accs"
          using False by (cases a) (auto simp: best_so_far_snoc score_gt_def)
        have lst: "imp \<noteq> [] \<Longrightarrow> (ws @ [w]) ! last imp = ws ! last imp"
          using in_range lw by (auto simp: nth_append)
        show ?thesis
          apply (rule exI, rule conjI)
           apply (simp only: tl fr)
          unfolding ce accs' ws' b_def[symmetric] imp' bs'
          using sv bs fs mp lst
          by auto
      qed
    qed
  qed
qed


lemma train_loop_no_improvement:
  assumes "\<forall>e \<in> set es. \<exists>a w. outcome e = Validated a w \<and> \<not> score_gt a (rs_best_acc s)"
  shows "train_loop p outcome es s = (s, None)"
  using assms by (induction es) (auto simp: save_best_model_skips)

lemma main_run:
  assumes mk: "makedirs fs (ta_checkpoint_dir args) = Inr fs1"
    and dl: "get_dataloaders fs1 train_tf val_tf perm (ta_data_dir args) (ta_batch_size args)
               = Inr (train_loader, val_loader, test_loader)"
    and md: "(if ta_model args = ''vit'' then get_vit_model (ta_num_classes args)
              else get_swin_model (ta_num_classes args)) = Some model0"
    and pr: "prepare args model0 = Inr model"
  shows "main fs train_tf val_tf perm get_vit_model get_swin_model prepare run_epoch args =
         train_loop (path_join (ta_checkpoint_dir args) (''best_model_'' @ ta_model args @ ''.pth''))
           (run_epoch train_loader val_loader model)
           [0..<nat (if ta_dry_run args then 1 else ta_epochs args)]
           \<lparr>rs_fs = fs1, rs_best_acc = 0, rs_saves = []\<rparr>"
  using md by (simp add: main_def mk dl pr Let_def)

lemma checkpoint_name_no_slash:
  assumes "m = ''vit'' \<or> m = ''swin''"
  shows "''best_model_'' @ m @ ''.pth'' \<noteq> [] \<and> (\<forall>c \<in> set (''best_model_'' @ m @ ''.pth''). \<not> is_slash c)"
  using assms by (auto simp: is_slash_def)

text \<open>
  When the checkpoint path is a directory, the first improving epoch ends the run:
  \<open>best_acc\<close> has been updated, \<open>torch.save\<close> raises and nothing is written.
\<close>

lemma main_save_path_is_directory:
  assumes mk: "makedirs fs (ta_checkpoint_dir args) = Inr fs1"
    and dl: "get_dataloaders fs1 train_tf val_tf perm (ta_data_dir args) (ta_batch_size args)
               = Inr (train_loader, val_loader, test_loader)"
    and md: "(if ta_model args = ''vit'' then get_vit_model (ta_num_classes args)
              else get_swin_model (ta_num_classes args)) = Some model0"
    and pr: "prepare args model0 = Inr model"
    and dir: "fs1 (path_join (ta_checkpoint_dir args) (''best_model_'' @ ta_model args @ ''.pth''))
                = Some Dir"
    and ep: "0 < (if ta_dry_run args then 1 else ta_epochs args)"
    and first: "run_epoch train_loader val_loader model 0 = Validated (Num a) w" "0 < a"
  shows "main fs train_tf val_tf perm get_vit_model get_swin_model prepare run_epoch args =
           (\<lparr>rs_fs = fs1, rs_best_acc = a, rs_saves = []\<rparr>, Some IsADirectoryError)"
proof -
  from ep have "[0..<nat (if ta_dry_run args then 1 else ta_epochs args)]
                  = 0 # [1..<nat (if ta_dry_run args then 1 else ta_epochs args)]"
    by (simp add: upt_conv_Cons)
  moreover have "main fs train_tf val_tf perm get_vit_model get_swin_model prepare run_epoch args =
         train_loop (path_join (ta_checkpoint_dir args) (''best_model_'' @ ta_model args @ ''.pth''))
           (run_epoch train_loader val_loader model)
           [0..<nat (if ta_dry_run args then 1 else ta_epochs args)]
           \<lparr>rs_fs = fs1, rs_best_acc = 0, rs_saves = []\<rparr>"
    using mk dl md pr by (rule main_run)
  ultimately show ?thesis
    using first dir
    by (simp add: save_best_model_def torch_save_def score_gt_def score_value_def)
qed

text \<open>
  Claim C2. In a training run that reaches the loop, with the checkpoint path not a
  directory: the run ends at the first epoch that raises, or after the last epoch. Over
  the epochs completed until then, \<open>torch.save\<close> is called at the end of exactly those
  epochs whose validation accuracy is a number strictly above the best accuracy seen before
  (the tracker starts at 0), always on the one file \<open>best_model_<arch>.pth\<close> of the
  checkpoint directory and with the parameter state of that epoch; the tracker ends as the
  best accuracy of the run, and the file holds the state of the last improving epoch.
\<close>

theorem main_checkpoints:
  fixes fs :: "('img, 'w) filesystem"
  assumes mk: "makedirs fs (ta_checkpoint_dir args) = Inr fs1"
    and dl: "get_dataloaders fs1 train_tf val_tf perm (ta_data_dir args) (ta_batch_size args)
               = Inr (train_loader, val_loader, test_loader)"
    and arch: "ta_model args = ''vit'' \<or> ta_model args = ''swin''"
    and md: "(if ta_model args = ''vit'' then get_vit_model (ta_num_classes args)
              else get_swin_model (ta_num_classes args)) = Some model0"
    and pr: "prepare args model0 = Inr model"
    and sp: "save_path = path_join (ta_checkpoint_dir args) (''best_model_'' @ ta_model args @ ''.pth'')"
    and nd: "fs1 save_path \<noteq> Some Dir"
    and ep: "epochs = (if ta_dry_run args then 1 else ta_epochs args)"
    and tr: "trace = completed_epochs (run_epoch train_loader val_loader model) [0..<nat epochs]"
  shows "\<exists>s'. main fs train_tf val_tf perm get_vit_model get_swin_model prepare run_epoch args
                = (s', first_raised (run_epoch train_loader val_loader model) [0..<nat epochs])
           \<and> rs_saves s' =
               map (\<lambda>i. (save_path, map snd trace ! i)) (improving_epochs 0 (map fst trace))
           \<and> rs_best_acc s' = best_so_far 0 (map fst trace)
           \<and> rs_fs s' =
               (if improving_epochs 0 (map fst trace) = [] then fs1
                else fs1(save_path \<mapsto>
                       Ckpt (map snd trace ! last (improving_epochs 0 (map fst trace)))))"
proof -
  define s0 :: "('img, 'w) run_state" where "s0 = \<lparr>rs_fs = fs1, rs_best_acc = 0, rs_saves = []\<rparr>"
  define outcome where "outcome = run_epoch train_loader val_loader model"
  have s0: "rs_fs s0 = fs1" "rs_best_acc s0 = 0" "rs_saves s0 = []" by (simp_all add: s0_def)
  have m: "main fs train_tf val_tf perm get_vit_model get_swin_model prepare run_epoch args
           = train_loop save_path outcome [0..<nat epochs] s0"
    unfolding sp ep s0_def outcome_def using mk dl md pr by (rule main_run)
  have nm: "''best_model_'' @ ta_model args @ ''.pth'' \<noteq> []"
    "\<forall>c \<in> set (''best_model_'' @ ta_model args @ ''.pth''). \<not> is_slash c"
    using checkpoint_name_no_slash[OF arch] by blast+
  have W: "rs_fs s0 save_path \<noteq> Some Dir" "is_dir (rs_fs s0) (dirname save_path)"
    using nd checkpoint_dir_is_parent[of fs "ta_checkpoint_dir args" fs1
        "''best_model_'' @ ta_model args @ ''.pth''", OF mk nm]
    by (simp_all add: s0 sp)
  from train_loop_result[of s0 save_path outcome "[0..<nat epochs]", OF W] obtain s' where
    t: "train_loop save_path outcome [0..<nat epochs] s0 = (s', first_raised outcome [0..<nat epochs])"
    and sv: "rs_saves s' = rs_saves s0 @
                 map (\<lambda>i. (save_path, map snd trace ! i))
                   (improving_epochs (rs_best_acc s0) (map fst trace))"
    and bs: "rs_best_acc s' = best_so_far (rs_best_acc s0) (map fst trace)"
    and fs: "rs_fs s' =
                (if improving_epochs (rs_best_acc s0) (map fst trace) = []
                 then rs_fs s0
                 else (rs_fs s0)(save_path \<mapsto> Ckpt (map snd trace !
                        last (improving_epochs (rs_best_acc s0) (map fst trace)))))"
    unfolding tr outcome_def by blast
  show ?thesis
  proof (rule exI[of _ s'], intro conjI)
    show "main fs train_tf val_tf perm get_vit_model get_swin_model prepare run_epoch args
            = (s', first_raised (run_epoch train_loader val_loader model) [0..<nat epochs])"
      using m t by (simp add: outcome_def)
    show "rs_saves s' = map (\<lambda>i. (save_path, map snd trace ! i)) (improving_epochs 0 (map fst trace))"
      using sv by (simp only: s0 append_Nil)
    show "rs_best_acc s' = best_so_far 0 (map fst trace)" using bs by (simp only: s0)
    show "rs_fs s' = (if improving_epochs 0 (map fst trace) = [] then fs1
                else fs1(save_path \<mapsto> Ckpt (map snd trace ! last (improving_epochs 0 (map fst trace)))))"
      using fs by (simp only: s0)
  qed
qed

text \<open>
  Claim C9. The tracker starts at 0 and the comparison is strict, so a run in which every
  epoch has validation accuracy 0 completes without a single call of \<open>torch.save\<close> and
  leaves the files as they were after the checkpoint directory was created.
\<close>

theorem main_all_zero_no_checkpoint:
  fixes fs :: "('img, 'w) filesystem"
  assumes mk: "makedirs fs (ta_checkpoint_dir args) = Inr fs1"
    and dl: "get_dataloaders fs1 train_tf val_tf perm (ta_data_dir args) (ta_batch_size args)
               = Inr (train_loader, val_loader, test_loader)"
    and md: "(if ta_model args = ''vit'' then get_vit_model (ta_num_classes args)
              else get_swin_model (ta_num_classes args)) = Some model0"
    and pr: "prepare args model0 = Inr model"
    and ep: "epochs = (if ta_dry_run args then 1 else ta_epochs args)"
    and out: "\<forall>i < nat epochs. \<exists>w. run_epoch train_loader val_loader model i = Validated (Num 0) w"
  shows "main fs train_tf val_tf perm get_vit_model get_swin_model prepare run_epoch args
         = (\<lparr>rs_fs = fs1, rs_best_acc = 0, rs_saves = []\<rparr>, None)"
proof -
  have "\<forall>e \<in> set [0..<nat epochs]. \<exists>a w. run_epoch train_loader val_loader model e = Validated a w
          \<and> \<not> score_gt a (rs_best_acc \<lparr>rs_fs = fs1, rs_best_acc = 0, rs_saves = []\<rparr>)"
    using out by (auto simp: score_gt_def)
  then have "train_loop (path_join (ta_checkpoint_dir args) (''best_model_'' @ ta_model args @ ''.pth''))
           (run_epoch train_loader val_loader model) [0..<nat epochs]
           \<lparr>rs_fs = fs1, rs_best_acc = 0, rs_saves = []\<rparr>
         = (\<lparr>rs_fs = fs1, rs_best_acc = 0, rs_saves = []\<rparr>, None)"
    by (rule train_loop_no_improvement)
  moreover have "main fs train_tf val_tf perm get_vit_model get_swin_model prepare run_epoch args =
         train_loop (path_join (ta_checkpoint_dir args) (''best_model_'' @ ta_model args @ ''.pth''))
           (run_epoch train_loader val_loader model) [0..<nat epochs]
           \<lparr>rs_fs = fs1, rs_best_acc = 0, rs_saves = []\<rparr>"
    unfolding ep using mk dl md pr by (rule main_run)
  ultimately show ?thesis by simp
qed

lemma improving_epochs_example:
  "improving_epochs 0 [Num 0.5, Num 0.7, Num 0.6, Num 0.9] = [0, 1, 3]"
  by (simp add: improving_epochs_def best_so_far_def numbers_def score_gt_def)

lemma upt_four: "[0..<4] = [0, 1, 2, 3::nat]"
  by (simp add: upt_rec)

text \<open>
  The run on a manifest of 100 rows with validation accuracies \<open>0.5, 0.7, 0.6, 0.9\<close>:
  three writes, at epochs 1, 2 and 4, and the file ends with the parameter state of epoch 4.
\<close>

theorem main_checkpoints_witness:
  "\<exists>s'. main
          ([''data/train.csv'' \<mapsto> Csv (replicate 100 \<lparr>image_id = ''Train_0'',
               cells = [''healthy'' \<mapsto> Number 0 0, ''multiple_diseases'' \<mapsto> Number 0 0,
                        ''rust'' \<mapsto> Number 1 0, ''scab'' \<mapsto> Number 0 0]\<rparr>),
            ''data/images'' \<mapsto> Dir,
            ''data/images/Train_0.jpg'' \<mapsto> Img (7::nat)] :: (nat, nat) filesystem)
          None None [0..<100] (\<lambda>num_classes. Some 0) (\<lambda>num_classes. None)
          (\<lambda>args model. Inr model)
          (\<lambda>train_loader val_loader model epoch.
              Validated (Num ([0.5, 0.7, 0.6, 0.9] ! epoch)) ([1, 2, 3, 4] ! epoch))
          \<lparr>ta_data_dir = ''data'', ta_model = ''vit'', ta_epochs = 4, ta_batch_size = 32,
            ta_num_classes = 38, ta_checkpoint_dir = ''checkpoints'', ta_dry_run = False\<rparr>
        = (s', None)
      \<and> rs_saves s' = [(''checkpoints/best_model_vit.pth'', 1),
                        (''checkpoints/best_model_vit.pth'', 2),
                        (''checkpoints/best_model_vit.pth'', 4)]
      \<and> length (rs_saves s') = 3
      \<and> rs_fs s' ''checkpoints/best_model_vit.pth'' = Some (Ckpt 4)"
proof -
  let ?r = "\<lparr>image_id = ''Train_0'',
            cells = [''healthy'' \<mapsto> Number 0 0, ''multiple_diseases'' \<mapsto> Number 0 0,
                     ''rust'' \<mapsto> Number 1 0, ''scab'' \<mapsto> Number 0 0]\<rparr>"
  let ?df = "replicate 100 ?r"
  let ?fs = "[''data/train.csv'' \<mapsto> Csv ?df, ''data/images'' \<mapsto> Dir,
              ''data/images/Train_0.jpg'' \<mapsto> Img (7::nat)] :: (nat, nat) filesystem"
  let ?fs1 = "?fs(''checkpoints'' \<mapsto> Dir)"
  let ?args = "\<lparr>ta_data_dir = ''data'', ta_model = ''vit'', ta_epochs = 4, ta_batch_size = 32,
            ta_num_classes = 38, ta_checkpoint_dir = ''checkpoints'', ta_dry_run = False\<rparr>"
  let ?run = "\<lambda>(train_loader :: nat dataloader) (val_loader :: nat dataloader) (model :: nat) epoch.
              Validated (Num ([0.5, 0.7, 0.6, 0.9] ! epoch)) ([1, 2, 3, 4 :: nat] ! epoch)"
  let ?prep = "\<lambda>(args :: train_args) (model :: nat). Inr model :: error + nat"
  let ?ds = "PlantDataset ?df ''data/images'' None :: nat plant_dataset"
  let ?trl = "\<lparr>dl_dataset = \<lparr>ts_subset = \<lparr>ss_dataset = ?ds, ss_indices = [0..<80]\<rparr>, ts_transform = None\<rparr>,
               dl_batch_size = 32, dl_shuffle = True\<rparr>"
  let ?val = "\<lparr>dl_dataset = \<lparr>ts_subset = \<lparr>ss_dataset = ?ds, ss_indices = [80..<90]\<rparr>, ts_transform = None\<rparr>,
               dl_batch_size = 32, dl_shuffle = False\<rparr>"
  let ?tel = "\<lparr>dl_dataset = \<lparr>ts_subset = \<lparr>ss_dataset = ?ds, ss_indices = [90..<100]\<rparr>, ts_transform = None\<rparr>,
               dl_batch_size = 32, dl_shuffle = False\<rparr>"
  let ?trace = "[(Num 0.5, 1), (Num 0.7, 2), (Num 0.6, 3), (Num 0.9, 4)] :: (score \<times> nat) list"
  let ?sp = "''checkpoints/best_model_vit.pth''"
  have mk: "makedirs ?fs (ta_checkpoint_dir ?args) = Inr ?fs1"
    by (simp add: makedirs_def rstrip_slashes_def is_slash_def)
  have csv: "?fs1 ''data/train.csv'' = Some (Csv ?df)" by simp
  have img: "?fs1 ''data/images'' \<noteq> None" by simp
  have n: "length ?df = 100" by simp
  have dl: "get_dataloaders ?fs1 None None [0..<100] (ta_data_dir ?args) (ta_batch_size ?args)
              = Inr (?trl, ?val, ?tel)"
    using get_dataloaders_hundred_rows[of ?fs1 ?df None None, OF csv img n] by simp
  have arch: "ta_model ?args = ''vit'' \<or> ta_model ?args = ''swin''" by simp
  have md: "(if ta_model ?args = ''vit'' then (\<lambda>num_classes. Some (0::nat)) (ta_num_classes ?args)
              else (\<lambda>num_classes. None) (ta_num_classes ?args)) = Some 0" by simp
  have pr: "?prep ?args 0 = Inr 0" by simp
  have sp: "?sp = path_join (ta_checkpoint_dir ?args) (''best_model_'' @ ta_model ?args @ ''.pth'')"
    by (simp add: path_join_def)
  have nd: "?fs1 ?sp \<noteq> Some Dir" by simp
  have ep: "(4::int) = (if ta_dry_run ?args then 1 else ta_epochs ?args)" by simp
  have tr: "?trace = completed_epochs (?run ?trl ?val 0) [0..<nat 4]"
    by (simp add: upt_four)
  have fr: "first_raised (?run ?trl ?val 0) [0..<nat 4] = None"
    by (simp add: upt_four)
  have a: "map fst ?trace = [Num 0.5, Num 0.7, Num 0.6, Num 0.9]" by simp
  from main_checkpoints[where run_epoch = ?run and prepare = ?prep and trace = ?trace
      and save_path = ?sp and epochs = 4, OF mk dl arch md pr sp nd ep tr]
  obtain s' where
    m: "main ?fs None None [0..<100] (\<lambda>num_classes. Some 0) (\<lambda>num_classes. None) ?prep ?run ?args
          = (s', first_raised (?run ?trl ?val 0) [0..<nat 4])"
    and sv: "rs_saves s' = map (\<lambda>i. (?sp, map snd ?trace ! i)) (improving_epochs 0 (map fst ?trace))"
    and fs: "rs_fs s' = (if improving_epochs 0 (map fst ?trace) = [] then ?fs1
                else ?fs1(?sp \<mapsto> Ckpt (map snd ?trace ! last (improving_epochs 0 (map fst ?trace)))))"
    by blast
  have m': "main ?fs None None [0..<100] (\<lambda>num_classes. Some 0) (\<lambda>num_classes. None) ?prep ?run ?args
          = (s', None)"
    using m unfolding fr .
  have sv': "rs_saves s' = [(?sp, 1), (?sp, 2), (?sp, 4)]"
    using sv unfolding a improving_epochs_example by simp
  have fs': "rs_fs s' ?sp = Some (Ckpt 4)"
    using fs unfolding a improving_epochs_example by simp
  show ?thesis using m' sv' fs' by (intro exI[of _ s']) simp
qed

text \<open>A run of three epochs with accuracy 0 on the same manifest completes and writes nothing.\<close>

theorem main_all_zero_no_checkpoint_witness:
  "main
     ([''data/train.csv'' \<mapsto> Csv (replicate 100 \<lparr>image_id = ''Train_0'',
          cells = [''healthy'' \<mapsto> Number 0 0, ''multiple_diseases'' \<mapsto> Number 0 0,
                   ''rust'' \<mapsto> Number 1 0, ''scab'' \<mapsto> Number 0 0]\<rparr>),
       ''data/images'' \<mapsto> Dir,
       ''data/images/Train_0.jpg'' \<mapsto> Img (7::nat)] :: (nat, nat) filesystem)
     None None [0..<100] (\<lambda>num_classes. Some 0) (\<lambda>num_classes. None)
     (\<lambda>args model. Inr model)
     (\<lambda>train_loader val_loader model epoch. Validated (Num 0) (Suc epoch))
     \<lparr>ta_data_dir = ''data'', ta_model = ''vit'', ta_epochs = 3, ta_batch_size = 32,
       ta_num_classes = 38, ta_checkpoint_dir = ''checkpoints'', ta_dry_run = False\<rparr>
   = (\<lparr>rs_fs = [''data/train.csv'' \<mapsto> Csv (replicate 100 \<lparr>image_id = ''Train_0'',
                   cells = [''healthy'' \<mapsto> Number 0 0, ''multiple_diseases'' \<mapsto> Number 0 0,
                            ''rust'' \<mapsto> Number 1 0, ''scab'' \<mapsto> Number 0 0]\<rparr>),
                 ''data/images'' \<mapsto> Dir,
                 ''data/images/Train_0.jpg'' \<mapsto> Img 7,
                 ''checkpoints'' \<mapsto> Dir],
        rs_best_acc = 0, rs_saves = []\<rparr>, None)"
proof -
  let ?r = "\<lparr>image_id = ''Train_0'',
            cells = [''healthy'' \<mapsto> Number 0 0, ''multiple_diseases'' \<mapsto> Number 0 0,
                     ''rust'' \<mapsto> Number 1 0, ''scab'' \<mapsto> Number 0 0]\<rparr>"
  let ?df = "replicate 100 ?r"
  let ?fs = "[''data/train.csv'' \<mapsto> Csv ?df, ''data/images'' \<mapsto> Dir,
              ''data/images/Train_0.jpg'' \<mapsto> Img (7::nat)] :: (nat, nat) filesystem"
  let ?fs1 = "?fs(''checkpoints'' \<mapsto> Dir)"
  let ?args = "\<lparr>ta_data_dir = ''data'', ta_model = ''vit'', ta_epochs = 3, ta_batch_size = 32,
            ta_num_classes = 38, ta_checkpoint_dir = ''checkpoints'', ta_dry_run = False\<rparr>"
  let ?run = "\<lambda>(train_loader :: nat dataloader) (val_loader :: nat dataloader) (model :: nat) epoch.
              Validated (Num 0) (Suc epoch)"
  let ?prep = "\<lambda>(args :: train_args) (model :: nat). Inr model :: error + nat"
  let ?ds = "PlantDataset ?df ''data/images'' None :: nat plant_dataset"
  let ?trl = "\<lparr>dl_dataset = \<lparr>ts_subset = \<lparr>ss_dataset = ?ds, ss_indices = [0..<80]\<rparr>, ts_transform = None\<rparr>,
               dl_batch_size = 32, dl_shuffle = True\<rparr>"
  let ?val = "\<lparr>dl_dataset = \<lparr>ts_subset = \<lparr>ss_dataset = ?ds, ss_indices = [80..<90]\<rparr>, ts_transform = None\<rparr>,
               dl_batch_size = 32, dl_shuffle = False\<rparr>"
  let ?tel = "\<lparr>dl_dataset = \<lparr>ts_subset = \<lparr>ss_dataset = ?ds, ss_indices = [90..<100]\<rparr>, ts_transform = None\<rparr>,
               dl_batch_size = 32, dl_shuffle = False\<rparr>"
  have mk: "makedirs ?fs (ta_checkpoint_dir ?args) = Inr ?fs1"
    by (simp add: makedirs_def rstrip_slashes_def is_slash_def)
  have csv: "?fs1 ''data/train.csv'' = Some (Csv ?df)" by simp
  have img: "?fs1 ''data/images'' \<noteq> None" by simp
  have n: "length ?df = 100" by simp
  have dl: "get_dataloaders ?fs1 None None [0..<100] (ta_data_dir ?args) (ta_batch_size ?args)
              = Inr (?trl, ?val, ?tel)"
    using get_dataloaders_hundred_rows[of ?fs1 ?df None None, OF csv img n] by simp
  have md: "(if ta_model ?args = ''vit'' then (\<lambda>num_classes. Some (0::nat)) (ta_num_classes ?args)
              else (\<lambda>num_classes. None) (ta_num_classes ?args)) = Some 0" by simp
  have pr: "?prep ?args 0 = Inr 0" by simp
  have ep: "(3::int) = (if ta_dry_run ?args then 1 else ta_epochs ?args)" by simp
  have out: "\<forall>i < nat 3. \<exists>w. ?run ?trl ?val 0 i = Validated (Num 0) w" by simp
  from main_all_zero_no_checkpoint[where run_epoch = ?run and prepare = ?prep and epochs = 3,
      OF mk dl md pr ep out]
  show ?thesis .
qed


section \<open>Properties of the metric calculator\<close>

lemma first_max_unique:
  fixes xs :: "'a::linorder list"
  assumes t: "t < length xs" "\<forall>k < length xs. xs ! k \<le> xs ! t" "\<forall>k < t. xs ! k < xs ! t"
  shows "argmax xs = Inr t"
proof -
  from t(1) have "xs \<noteq> []" by auto
  then obtain k where k: "argmax xs = Inr k" using argmax_nonempty by blast
  from argmax_first_max[OF k] have kp: "k < length xs" "\<forall>j < length xs. xs ! j \<le> xs ! k"
    "\<forall>j < k. xs ! j < xs ! k" by simp_all
  have "\<not> k < t"
  proof
    assume "k < t"
    with t(3) have "xs ! k < xs ! t" by simp
    moreover from kp(2) t(1) have "xs ! t \<le> xs ! k" by simp
    ultimately show False by simp
  qed
  moreover have "\<not> t < k"
  proof
    assume "t < k"
    with kp(3) have "xs ! t < xs ! k" by simp
    moreover from t(2) kp(1) have "xs ! k \<le> xs ! t" by simp
    ultimately show False by simp
  qed
  ultimately have "k = t" by simp
  with k show ?thesis by simp
qed

lemma torch_argmax_dim1_rows:
  assumes "\<forall>r \<in> set rows. r \<noteq> []"
  shows "\<exists>preds. torch_argmax_dim1 rows = Inr preds \<and> length preds = length rows
           \<and> (\<forall>i < length rows. 0 \<le> preds ! i \<and> argmax (rows ! i) = Inr (nat (preds ! i)))"
  using assms
proof (induction rows)
  case Nil
  then show ?case by simp
next
  case (Cons r rows)
  from Cons.prems have "r \<noteq> []" by simp
  then obtain k where k: "argmax r = Inr k" using argmax_nonempty by blast
  from Cons obtain preds where p: "torch_argmax_dim1 rows = Inr preds" "length preds = length rows"
    "\<forall>i < length rows. 0 \<le> preds ! i \<and> argmax (rows ! i) = Inr (nat (preds ! i))"
    by auto
  show ?case
    apply (rule exI[of _ "int k # preds"])
    using k p by (auto simp: nth_Cons split: nat.splits)
qed

lemma tp_sum_card:
  assumes "length targets = length preds"
  shows "tp_sum targets preds c = card {i. i < length targets \<and> targets ! i = c \<and> preds ! i = c}"
proof -
  have "tp_sum targets preds c
        = card {i. i < length (zip targets preds) \<and> (\<lambda>(t, p). t = c \<and> p = c) (zip targets preds ! i)}"
    unfolding tp_sum_def by (rule length_filter_conv_card)
  also have "{i. i < length (zip targets preds) \<and> (\<lambda>(t, p). t = c \<and> p = c) (zip targets preds ! i)}
             = {i. i < length targets \<and> targets ! i = c \<and> preds ! i = c}"
    using assms by auto
  finally show ?thesis .
qed

lemma pred_sum_card: "pred_sum preds c = card {i. i < length preds \<and> preds ! i = c}"
  unfolding pred_sum_def by (rule length_filter_conv_card)

lemma true_sum_card: "true_sum targets c = card {i. i < length targets \<and> targets ! i = c}"
  unfolding true_sum_def by (rule length_filter_conv_card)

lemma tp_le_pred:
  assumes "length targets = length preds"
  shows "tp_sum targets preds c \<le> pred_sum preds c"
  unfolding tp_sum_card[OF assms] pred_sum_card using assms
  by (intro card_mono) auto

lemma tp_le_true:
  assumes "length targets = length preds"
  shows "tp_sum targets preds c \<le> true_sum targets c"
  unfolding tp_sum_card[OF assms] true_sum_card
  by (intro card_mono) auto

lemma prf_divide_unit:
  assumes "0 \<le> a" "a \<le> b"
  shows "0 \<le> prf_divide a b \<and> prf_divide a b \<le> 1"
  using assms by (auto simp: prf_divide_def divide_le_eq_1)

lemma class_precision_unit:
  assumes "length targets = length preds"
  shows "0 \<le> class_precision targets preds c \<and> class_precision targets preds c \<le> 1"
  unfolding class_precision_def using tp_le_pred[OF assms, of c]
  by (intro prf_divide_unit) simp_all

lemma class_recall_unit:
  assumes "length targets = length preds"
  shows "0 \<le> class_recall targets preds c \<and> class_recall targets preds c \<le> 1"
  unfolding class_recall_def using tp_le_true[OF assms, of c]
  by (intro prf_divide_unit) simp_all

lemma harmonic_unit:
  fixes p r :: real
  assumes "0 \<le> p" "p \<le> 1" "0 \<le> r" "r \<le> 1"
  shows "0 \<le> prf_divide (2 * p * r) (p + r) \<and> prf_divide (2 * p * r) (p + r) \<le> 1"
proof (rule prf_divide_unit)
  show "0 \<le> 2 * p * r" using assms by simp
  have "p * r \<le> p * 1" using assms by (intro mult_left_mono) simp_all
  moreover have "p * r \<le> 1 * r" using assms by (intro mult_right_mono) simp_all
  ultimately show "2 * p * r \<le> p + r" by simp
qed

lemma class_f1_unit:
  assumes "length targets = length preds"
  shows "0 \<le> class_f1 targets preds c \<and> class_f1 targets preds c \<le> 1"
  unfolding class_f1_def
  using class_precision_unit[OF assms, of c] class_recall_unit[OF assms, of c]
  by (intro harmonic_unit) simp_all

lemma np_mean_unit:
  assumes "xs \<noteq> []" "\<forall>x \<in> set xs. 0 \<le> x \<and> x \<le> 1"
  shows "\<exists>a. np_mean xs = Num a \<and> a = sum_list xs / real (length xs) \<and> 0 \<le> a \<and> a \<le> 1"
proof -
  have "0 \<le> sum_list xs" using assms(2) by (intro sum_list_nonneg) simp
  moreover have "sum_list xs \<le> sum_list (map (\<lambda>x. 1) xs)"
    using assms(2) by (induction xs) (auto simp: add_mono)
  then have "sum_list xs \<le> real (length xs)" by (simp add: sum_list_triv)
  moreover have "0 < real (length xs)" using assms(1) by simp
  ultimately show ?thesis using assms(1) by (simp add: np_mean_def divide_le_eq_1)
qed


lemma np_mean_const:
  assumes "xs \<noteq> []" "\<forall>x \<in> set xs. f x = 1"
  shows "np_mean (map f xs) = Num 1"
proof -
  have "sum_list (map f xs) = real (length xs)" using assms(2) by (induction xs) simp_all
  then show ?thesis using assms(1) by (simp add: np_mean_def)
qed

lemma tp_sum_self: "tp_sum targets targets c = true_sum targets c"
  unfolding tp_sum_def true_sum_def by (induction targets) simp_all

lemma pred_sum_true_sum: "pred_sum targets c = true_sum targets c"
  by (simp add: pred_sum_def true_sum_def)

lemma true_sum_pos: "c \<in> set targets \<Longrightarrow> 0 < true_sum targets c"
  unfolding true_sum_def by (induction targets) auto

lemma class_f1_self:
  assumes "c \<in> set targets"
  shows "class_f1 targets targets c = 1"
  using true_sum_pos[OF assms]
  by (simp add: class_f1_def class_precision_def class_recall_def prf_divide_def
      tp_sum_self pred_sum_true_sum)

lemma accuracy_score_unit:
  assumes "targets \<noteq> []" "length preds = length targets"
  shows "\<exists>a. accuracy_score targets preds = Num a \<and> 0 \<le> a \<and> a \<le> 1"
proof -
  have "zip targets preds \<noteq> []" using assms by (cases targets; cases preds) simp_all
  then have "map (\<lambda>(t, p). if t = p then 1 else 0 :: real) (zip targets preds) \<noteq> []" by simp
  moreover have "\<forall>x \<in> set (map (\<lambda>(t, p). if t = p then 1 else 0 :: real) (zip targets preds)).
                   0 \<le> x \<and> x \<le> 1" by auto
  ultimately show ?thesis
    unfolding accuracy_score_def using np_mean_unit by blast
qed

lemma accuracy_score_self:
  assumes "targets \<noteq> []"
  shows "accuracy_score targets targets = Num 1"
proof -
  have "zip targets targets \<noteq> []" using assms by (cases targets) simp_all
  moreover have "\<forall>x \<in> set (zip targets targets). (\<lambda>(t, p). if t = p then 1 else 0 :: real) x = 1"
    by (auto simp: set_zip)
  ultimately show ?thesis unfolding accuracy_score_def by (rule np_mean_const)
qed

lemma unique_labels_props:
  "set (unique_labels targets preds) = set targets \<union> set preds"
  "distinct (unique_labels targets preds)"
  "length (unique_labels targets preds) = card (set targets \<union> set preds)"
  "targets \<noteq> [] \<Longrightarrow> unique_labels targets preds \<noteq> []"
proof -
  show s: "set (unique_labels targets preds) = set targets \<union> set preds"
    by (simp add: unique_labels_def)
  show "distinct (unique_labels targets preds)" by (simp add: unique_labels_def)
  show "length (unique_labels targets preds) = card (set targets \<union> set preds)"
    by (simp add: unique_labels_def)
  show "targets \<noteq> [] \<Longrightarrow> unique_labels targets preds \<noteq> []"
    using s by (cases targets) auto
qed

lemma calculate_metrics_result:
  assumes len: "length y_pred = length y_true" and cols: "\<forall>r \<in> set y_pred. r \<noteq> []"
  shows "\<exists>preds. length preds = length y_true
           \<and> (\<forall>i < length y_true. 0 \<le> preds ! i \<and> argmax (y_pred ! i) = Inr (nat (preds ! i)))
           \<and> calculate_metrics y_true y_pred =
               Inr \<lparr>accuracy = accuracy_score y_true preds,
                    precision = np_mean (map (class_precision y_true preds) (unique_labels y_true preds)),
                    recall = np_mean (map (class_recall y_true preds) (unique_labels y_true preds)),
                    f1 = np_mean (map (class_f1 y_true preds) (unique_labels y_true preds))\<rparr>"
proof -
  from torch_argmax_dim1_rows[OF cols] obtain preds where
    p: "torch_argmax_dim1 y_pred = Inr preds" "length preds = length y_pred"
      "\<forall>i < length y_pred. 0 \<le> preds ! i \<and> argmax (y_pred ! i) = Inr (nat (preds ! i))"
    by blast
  show ?thesis
    apply (rule exI[of _ preds])
    using p len by (simp add: calculate_metrics_def Let_def)
qed

lemma first_max_predictions:
  fixes y_pred :: "float32 list list"
  assumes lp: "length preds = length y_true"
    and am: "\<forall>i < length y_true. 0 \<le> preds ! i \<and> argmax (y_pred ! i) = Inr (nat (preds ! i))"
    and fm: "\<forall>i < length y_true. 0 \<le> y_true ! i \<and> nat (y_true ! i) < length (y_pred ! i)
               \<and> (\<forall>k < length (y_pred ! i). y_pred ! i ! k \<le> y_pred ! i ! nat (y_true ! i))
               \<and> (\<forall>k < nat (y_true ! i). y_pred ! i ! k < y_pred ! i ! nat (y_true ! i))"
  shows "preds = y_true"
proof (rule nth_equalityI)
  show "length preds = length y_true" by (rule lp)
next
  fix i assume "i < length preds"
  then have i: "i < length y_true" using lp by simp
  from fm i have f: "0 \<le> y_true ! i" "nat (y_true ! i) < length (y_pred ! i)"
    "\<forall>k < length (y_pred ! i). y_pred ! i ! k \<le> y_pred ! i ! nat (y_true ! i)"
    "\<forall>k < nat (y_true ! i). y_pred ! i ! k < y_pred ! i ! nat (y_true ! i)"
    by blast+
  have "argmax (y_pred ! i) = Inr (nat (y_true ! i))"
    using f(2,3,4) by (rule first_max_unique)
  moreover from am i have "0 \<le> preds ! i" "argmax (y_pred ! i) = Inr (nat (preds ! i))" by blast+
  ultimately show "preds ! i = y_true ! i" using f(1) by simp
qed

text \<open>
  Claim C8. For every non-empty batch of logits (every row with at least one column) and
  as many integer targets, the metric calculator returns, and its accuracy is a number
  between 0 and 1; when every target is the first maximal column of its row of logits,
  so that the predictions equal the targets, accuracy and F1 are both 1.
\<close>

theorem calculate_metrics_accuracy:
  fixes y_true :: "int list" and y_pred :: "float32 list list"
  assumes ne: "y_true \<noteq> []"
    and len: "length y_pred = length y_true"
    and cols: "\<forall>r \<in> set y_pred. r \<noteq> []"
  shows "\<exists>m a. calculate_metrics y_true y_pred = Inr m \<and> accuracy m = Num a \<and> 0 \<le> a \<and> a \<le> 1
           \<and> ((\<forall>i < length y_true. 0 \<le> y_true ! i \<and> nat (y_true ! i) < length (y_pred ! i)
                  \<and> (\<forall>k < length (y_pred ! i). y_pred ! i ! k \<le> y_pred ! i ! nat (y_true ! i))
                  \<and> (\<forall>k < nat (y_true ! i). y_pred ! i ! k < y_pred ! i ! nat (y_true ! i)))
                \<longrightarrow> accuracy m = Num 1 \<and> f1 m = Num 1)"
proof -
  from calculate_metrics_result[OF len cols] obtain preds where
    lp: "length preds = length y_true"
    and am: "\<forall>i < length y_true. 0 \<le> preds ! i \<and> argmax (y_pred ! i) = Inr (nat (preds ! i))"
    and cm: "calculate_metrics y_true y_pred =
               Inr \<lparr>accuracy = accuracy_score y_true preds,
                    precision = np_mean (map (class_precision y_true preds) (unique_labels y_true preds)),
                    recall = np_mean (map (class_recall y_true preds) (unique_labels y_true preds)),
                    f1 = np_mean (map (class_f1 y_true preds) (unique_labels y_true preds))\<rparr>"
    by blast
  from accuracy_score_unit[OF ne lp] obtain a where
    a: "accuracy_score y_true preds = Num a" "0 \<le> a" "a \<le> 1" by blast
  have perfect: "accuracy_score y_true preds = Num 1
      \<and> np_mean (map (class_f1 y_true preds) (unique_labels y_true preds)) = Num 1"
    if fm: "\<forall>i < length y_true. 0 \<le> y_true ! i \<and> nat (y_true ! i) < length (y_pred ! i)
               \<and> (\<forall>k < length (y_pred ! i). y_pred ! i ! k \<le> y_pred ! i ! nat (y_true ! i))
               \<and> (\<forall>k < nat (y_true ! i). y_pred ! i ! k < y_pred ! i ! nat (y_true ! i))"
  proof -
    have eq: "preds = y_true" using lp am fm by (rule first_max_predictions)
    have "\<forall>c \<in> set (unique_labels y_true y_true). class_f1 y_true y_true c = 1"
      by (simp add: unique_labels_props(1) class_f1_self)
    with unique_labels_props(4)[OF ne, of y_true]
    have "np_mean (map (class_f1 y_true y_true) (unique_labels y_true y_true)) = Num 1"
      by (rule np_mean_const)
    then show ?thesis using accuracy_score_self[OF ne] by (simp add: eq)
  qed
  show ?thesis
    apply (rule exI[of _ "\<lparr>accuracy = accuracy_score y_true preds,
                    precision = np_mean (map (class_precision y_true preds) (unique_labels y_true preds)),
                    recall = np_mean (map (class_recall y_true preds) (unique_labels y_true preds)),
                    f1 = np_mean (map (class_f1 y_true preds) (unique_labels y_true preds))\<rparr>"])
    apply (rule exI[of _ a])
    using cm a perfect by simp
qed


text \<open>
  Two examples of classes 2 and 0 whose logits are largest in columns 2 and 0.
\<close>

theorem calculate_metrics_accuracy_witness:
  "\<exists>m. calculate_metrics [2, 0] [[F32 0, F32 0, F32 1, F32 0], [F32 1, F32 0, F32 0, F32 0]] = Inr m
       \<and> accuracy m = Num 1 \<and> f1 m = Num 1"
proof -
  let ?t = "[2, 0] :: int list"
  let ?l = "[[F32 0, F32 0, F32 1, F32 0], [F32 1, F32 0, F32 0, F32 0]]"
  have ne: "?t \<noteq> []" by simp
  have len: "length ?l = length ?t" by simp
  have cols: "\<forall>r \<in> set ?l. r \<noteq> []" by simp
  have fm: "\<forall>i < length ?t. 0 \<le> ?t ! i \<and> nat (?t ! i) < length (?l ! i)
                  \<and> (\<forall>k < length (?l ! i). ?l ! i ! k \<le> ?l ! i ! nat (?t ! i))
                  \<and> (\<forall>k < nat (?t ! i). ?l ! i ! k < ?l ! i ! nat (?t ! i))"
    by (simp add: less_Suc_eq numeral_2_eq_2 numeral_3_eq_3 less_float32_def less_eq_float32_def
        all_conj_distrib nth_Cons' eval_nat_numeral)
  from calculate_metrics_accuracy[OF ne len cols] fm show ?thesis by blast
qed

lemma class_precision_card:
  assumes "length preds = length targets"
  shows "class_precision targets preds c =
           (if card {i. i < length targets \<and> preds ! i = c} = 0 then 0
            else real (card {i. i < length targets \<and> targets ! i = c \<and> preds ! i = c})
                 / real (card {i. i < length targets \<and> preds ! i = c}))"
  using assms by (simp add: class_precision_def prf_divide_def tp_sum_card pred_sum_card)

lemma class_recall_card:
  assumes "length preds = length targets"
  shows "class_recall targets preds c =
           (if card {i. i < length targets \<and> targets ! i = c} = 0 then 0
            else real (card {i. i < length targets \<and> targets ! i = c \<and> preds ! i = c})
                 / real (card {i. i < length targets \<and> targets ! i = c}))"
  using assms by (simp add: class_recall_def prf_divide_def tp_sum_card true_sum_card)

lemma macro_mean:
  assumes ne: "targets \<noteq> []" and u: "\<forall>c. 0 \<le> f c \<and> f c \<le> 1"
  shows "\<exists>a. np_mean (map f (unique_labels targets preds)) = Num a
           \<and> a = sum f (set targets \<union> set preds) / real (card (set targets \<union> set preds))
           \<and> 0 \<le> a \<and> a \<le> 1"
proof -
  have "\<forall>x \<in> set (map f (unique_labels targets preds)). 0 \<le> x \<and> x \<le> 1" using u by auto
  moreover have "map f (unique_labels targets preds) \<noteq> []"
    using unique_labels_props(4)[OF ne, of preds] by simp
  ultimately obtain a where a: "np_mean (map f (unique_labels targets preds)) = Num a"
    "a = sum_list (map f (unique_labels targets preds))
           / real (length (map f (unique_labels targets preds)))" "0 \<le> a" "a \<le> 1"
    using np_mean_unit by blast
  have "sum_list (map f (unique_labels targets preds)) = sum f (set (unique_labels targets preds))"
    using unique_labels_props(2) by (rule sum_list_distinct_conv_sum_set)
  with a show ?thesis by (simp add: unique_labels_props(1,3))
qed

text \<open>
  Claim C4, as amended. For every non-empty batch the metric calculator returns; each
  prediction is the first maximal column of its row of logits; precision, recall and F1
  are the unweighted means, over the classes that occur among the targets or the
  predictions of the batch, of the per-class values, in which a ratio with denominator
  zero counts as 0; each of the three is a number between 0 and 1.
\<close>

theorem calculate_metrics_macro_over_batch_labels:
  fixes y_true :: "int list" and y_pred :: "float32 list list"
  assumes ne: "y_true \<noteq> []"
    and len: "length y_pred = length y_true"
    and cols: "\<forall>r \<in> set y_pred. r \<noteq> []"
  shows "\<exists>m preds. calculate_metrics y_true y_pred = Inr m
           \<and> length preds = length y_true
           \<and> (\<forall>i < length y_true. 0 \<le> preds ! i \<and> nat (preds ! i) < length (y_pred ! i)
                 \<and> (\<forall>k < length (y_pred ! i). y_pred ! i ! k \<le> y_pred ! i ! nat (preds ! i))
                 \<and> (\<forall>k < nat (preds ! i). y_pred ! i ! k < y_pred ! i ! nat (preds ! i)))
           \<and> (let n = length y_true;
                   labels = set y_true \<union> set preds;
                   tp = (\<lambda>c. card {i. i < n \<and> y_true ! i = c \<and> preds ! i = c});
                   predicted = (\<lambda>c. card {i. i < n \<and> preds ! i = c});
                   actual = (\<lambda>c. card {i. i < n \<and> y_true ! i = c});
                   P = (\<lambda>c. if predicted c = 0 then 0 else real (tp c) / real (predicted c));
                   R = (\<lambda>c. if actual c = 0 then 0 else real (tp c) / real (actual c));
                   F = (\<lambda>c. if P c + R c = 0 then 0 else 2 * P c * R c / (P c + R c))
               in precision m = Num (sum P labels / real (card labels))
                \<and> recall m = Num (sum R labels / real (card labels))
                \<and> f1 m = Num (sum F labels / real (card labels))
                \<and> 0 \<le> sum P labels / real (card labels) \<and> sum P labels / real (card labels) \<le> 1
                \<and> 0 \<le> sum R labels / real (card labels) \<and> sum R labels / real (card labels) \<le> 1
                \<and> 0 \<le> sum F labels / real (card labels) \<and> sum F labels / real (card labels) \<le> 1)"
proof -
  from calculate_metrics_result[OF len cols] obtain preds where
    lp: "length preds = length y_true"
    and am: "\<forall>i < length y_true. 0 \<le> preds ! i \<and> argmax (y_pred ! i) = Inr (nat (preds ! i))"
    and cm: "calculate_metrics y_true y_pred =
               Inr \<lparr>accuracy = accuracy_score y_true preds,
                    precision = np_mean (map (class_precision y_true preds) (unique_labels y_true preds)),
                    recall = np_mean (map (class_recall y_true preds) (unique_labels y_true preds)),
                    f1 = np_mean (map (class_f1 y_true preds) (unique_labels y_true preds))\<rparr>"
    by blast
  define m where "m = \<lparr>accuracy = accuracy_score y_true preds,
                    precision = np_mean (map (class_precision y_true preds) (unique_labels y_true preds)),
                    recall = np_mean (map (class_recall y_true preds) (unique_labels y_true preds)),
                    f1 = np_mean (map (class_f1 y_true preds) (unique_labels y_true preds))\<rparr>"
  define L where "L = set y_true \<union> set preds"
  define P where "P = (\<lambda>c. if card {i. i < length y_true \<and> preds ! i = c} = 0 then 0
            else real (card {i. i < length y_true \<and> y_true ! i = c \<and> preds ! i = c})
                 / real (card {i. i < length y_true \<and> preds ! i = c}))"
  define R where "R = (\<lambda>c. if card {i. i < length y_true \<and> y_true ! i = c} = 0 then 0
            else real (card {i. i < length y_true \<and> y_true ! i = c \<and> preds ! i = c})
                 / real (card {i. i < length y_true \<and> y_true ! i = c}))"
  define F where "F = (\<lambda>c. if P c + R c = 0 then 0 else 2 * P c * R c / (P c + R c))"
  have lt: "length y_true = length preds" using lp by simp
  have Pe: "class_precision y_true preds = P"
    unfolding P_def by (rule ext) (rule class_precision_card[OF lp])
  have Re: "class_recall y_true preds = R"
    unfolding R_def by (rule ext) (rule class_recall_card[OF lp])
  have Fe: "class_f1 y_true preds = F"
    unfolding F_def by (rule ext) (simp add: class_f1_def prf_divide_def Pe Re)
  have Pu: "\<forall>c. 0 \<le> P c \<and> P c \<le> 1" using class_precision_unit[OF lt] by (simp add: Pe)
  have Ru: "\<forall>c. 0 \<le> R c \<and> R c \<le> 1" using class_recall_unit[OF lt] by (simp add: Re)
  have Fu: "\<forall>c. 0 \<le> F c \<and> F c \<le> 1" using class_f1_unit[OF lt] by (simp add: Fe)
  from macro_mean[OF ne Pu, of preds] have p: "precision m = Num (sum P L / real (card L))"
    "0 \<le> sum P L / real (card L)" "sum P L / real (card L) \<le> 1"
    by (auto simp: m_def Pe L_def)
  from macro_mean[OF ne Ru, of preds] have r: "recall m = Num (sum R L / real (card L))"
    "0 \<le> sum R L / real (card L)" "sum R L / real (card L) \<le> 1"
    by (auto simp: m_def Re L_def)
  from macro_mean[OF ne Fu, of preds] have f: "f1 m = Num (sum F L / real (card L))"
    "0 \<le> sum F L / real (card L)" "sum F L / real (card L) \<le> 1"
    by (auto simp: m_def Fe L_def)
  have fmx: "\<forall>i < length y_true. 0 \<le> preds ! i \<and> nat (preds ! i) < length (y_pred ! i)
                 \<and> (\<forall>k < length (y_pred ! i). y_pred ! i ! k \<le> y_pred ! i ! nat (preds ! i))
                 \<and> (\<forall>k < nat (preds ! i). y_pred ! i ! k < y_pred ! i ! nat (preds ! i))"
  proof (intro allI impI)
    fix i assume "i < length y_true"
    with am have a: "0 \<le> preds ! i" "argmax (y_pred ! i) = Inr (nat (preds ! i))" by blast+
    from argmax_first_max[OF a(2)] a(1)
    show "0 \<le> preds ! i \<and> nat (preds ! i) < length (y_pred ! i)
                 \<and> (\<forall>k < length (y_pred ! i). y_pred ! i ! k \<le> y_pred ! i ! nat (preds ! i))
                 \<and> (\<forall>k < nat (preds ! i). y_pred ! i ! k < y_pred ! i ! nat (preds ! i))"
      by blast
  qed
  show ?thesis
    apply (rule exI[of _ m], rule exI[of _ preds])
    unfolding Let_def
    using cm lp fmx p r f
    unfolding m_def[symmetric] L_def P_def R_def F_def
    by (intro conjI) assumption+
qed


lemma labels_0_2: "unique_labels [0, 2] [0, 2] = [0, 2]"
  by (simp add: unique_labels_def)

lemma labels_0_1: "unique_labels [0, 1] [0, 0] = [0, 1]"
  by (simp add: unique_labels_def)

lemma argmax_col0: "argmax [F32 1, F32 0, F32 0, F32 0] = Inr 0"
  by (simp add: argmax_def less_float32_def)

lemma argmax_col2: "argmax [F32 0, F32 0, F32 1, F32 0] = Inr 2"
  by (simp add: argmax_def less_float32_def)

text \<open>
  Claim C4 as worded fails: on a batch with one example of class 0 and one of class 2,
  both predicted correctly, the calculator returns precision 1, the mean over the two
  classes of the batch; the mean over the four classes of the class list, the absent
  classes counting 0, is one half.
\<close>

theorem macro_not_over_class_list_counterexample:
  "\<exists>m. calculate_metrics [0, 2] [[F32 1, F32 0, F32 0, F32 0], [F32 0, F32 0, F32 1, F32 0]] = Inr m
       \<and> precision m = Num 1
       \<and> macro_over_class_list 4 (class_precision [0, 2] [0, 2]) = 1 / 2
       \<and> precision m \<noteq> Num (macro_over_class_list 4 (class_precision [0, 2] [0, 2]))"
proof -
  have cp: "class_precision [0, 2] [0, 2] 0 = 1" "class_precision [0, 2] [0, 2] 1 = 0"
    "class_precision [0, 2] [0, 2] 2 = 1" "class_precision [0, 2] [0, 2] 3 = 0"
    by (simp_all add: class_precision_def prf_divide_def tp_sum_def pred_sum_def)
  have mo: "macro_over_class_list 4 (class_precision [0, 2] [0, 2]) = 1 / 2"
    by (simp add: macro_over_class_list_def upt_rec cp)
  have cm: "calculate_metrics [0, 2] [[F32 1, F32 0, F32 0, F32 0], [F32 0, F32 0, F32 1, F32 0]]
        = Inr \<lparr>accuracy = Num 1, precision = Num 1, recall = Num 1, f1 = Num 1\<rparr>"
    by (simp add: calculate_metrics_def argmax_col0 argmax_col2 labels_0_2 accuracy_score_def
        np_mean_def Let_def cp class_recall_def class_f1_def prf_divide_def tp_sum_def true_sum_def)
  show ?thesis using cm mo by simp
qed

text \<open>
  A batch with targets 0 and 1, both predicted as class 0: class 1 is never predicted, so
  its precision is the ratio 0 / 0, which counts as 0.
\<close>

theorem calculate_metrics_macro_over_batch_labels_witness:
  "\<exists>m. calculate_metrics [0, 1] [[F32 1, F32 0, F32 0, F32 0], [F32 1, F32 0, F32 0, F32 0]] = Inr m
       \<and> precision m = Num (1 / 4) \<and> recall m = Num (1 / 2) \<and> f1 m = Num (1 / 3)"
proof -
  let ?t = "[0, 1] :: int list"
  let ?l = "[[F32 1, F32 0, F32 0, F32 0], [F32 1, F32 0, F32 0, F32 0]]"
  have ne: "?t \<noteq> []" by simp
  have len: "length ?l = length ?t" by simp
  have cols: "\<forall>r \<in> set ?l. r \<noteq> []" by simp
  from calculate_metrics_macro_over_batch_labels[OF ne len cols]
  obtain m where m: "calculate_metrics ?t ?l = Inr m" by blast
  have cp: "class_precision [0, 1] [0, 0] 0 = 1 / 2" "class_precision [0, 1] [0, 0] 1 = 0"
    by (simp_all add: class_precision_def prf_divide_def tp_sum_def pred_sum_def)
  have cr: "class_recall [0, 1] [0, 0] 0 = 1" "class_recall [0, 1] [0, 0] 1 = 0"
    by (simp_all add: class_recall_def prf_divide_def tp_sum_def true_sum_def)
  have cf: "class_f1 [0, 1] [0, 0] 0 = 2 / 3" "class_f1 [0, 1] [0, 0] 1 = 0"
    by (simp_all add: class_f1_def cp cr prf_divide_def)
  have cm: "calculate_metrics ?t ?l
        = Inr \<lparr>accuracy = Num (1 / 2), precision = Num (1 / 4), recall = Num (1 / 2), f1 = Num (1 / 3)\<rparr>"
    by (simp add: calculate_metrics_def argmax_col0 labels_0_1 accuracy_score_def
        np_mean_def Let_def cp cr cf)
  from m cm have "m = \<lparr>accuracy = Num (1 / 2), precision = Num (1 / 4), recall = Num (1 / 2),
                        f1 = Num (1 / 3)\<rparr>" by simp
  then have "precision m = Num (1 / 4)" "recall m = Num (1 / 2)" "f1 m = Num (1 / 3)" by simp_all
  with m show ?thesis by blast
qed


end
